theory Spec2Isabelle
  imports Main "HOL-Library.Sublist"
begin

section \<open>The notification service of the pet-sitting application\<close>

text \<open>
  A shallow embedding of the class \<open>NotificationService\<close>: the singleton that keeps the
  notification list under the storage key \<open>notifications\<close>, fetches the remote feed
  behind a debounce, filters what a user may see and calls the subscribed listeners.

  The service is asynchronous but runs one synchronous section at a time, so a method is
  a function from the state before the call to a result and the state after it. A
  thrown exception (a rejected promise) is the result \<open>Inl\<close>.
\<close>

subsection \<open>Data\<close>

text \<open>The interface \<open>Notification\<close>. The optional field \<open>avatar\<close>, which no method
  reads, is left out. The payload \<open>data\<close> is an object read only by key.\<close>

datatype notification_type = Booking | Message | Review | System

type_synonym payload = "(string \<times> string) list"

record notification =
  nid :: string
  ntype :: notification_type
  title :: string
  message :: string
  time :: string
  isRead :: bool
  action :: "string option"
  data :: "payload option"
  userId :: "string option"

text \<open>The argument of \<open>addNotificationForUser\<close> (a notification without \<open>id\<close>,
  \<open>time\<close>, \<open>isRead\<close> and \<open>userId\<close>) and of \<open>addNotification\<close> (the same with an
  optional \<open>userId\<close>).\<close>

record draft =
  d_type :: notification_type
  d_title :: string
  d_message :: string
  d_action :: "string option"
  d_data :: "payload option"

record targeted_draft = draft +
  d_userId :: "string option"

text \<open>What \<open>authService.getCurrentUser()\<close> resolves to.\<close>

record user =
  uid :: string
  token :: "string option"
  userType :: "string option"
  role :: "string option"

text \<open>One element of the remote feed, and the body of the response.\<close>

record api_notification =
  api_id :: int
  api_type :: "notification_type option"
  api_title :: "string option"
  api_message :: "string option"
  created_at :: string
  read_at :: "string option"
  api_data :: "payload option"

record api_payload =
  success :: bool
  notifications :: "api_notification list option"

text \<open>A response of \<open>makeApiCall\<close>: the flag \<open>ok\<close> and the body, \<open>None\<close> when
  \<open>response.json()\<close> throws.\<close>

datatype http_response = HttpResponse (ok: bool) (json: "api_payload option")

datatype request =
    GET_notifications string
  | PUT_read string string
  | PUT_mark_all_read string

datatype exn = StorageError | AuthError | NetworkError | JsonError | ListenerError

text \<open>A listener is a function value; the service compares listeners by identity
  (\<open>l !== listener\<close>), so a listener is modelled by its identity.\<close>

type_synonym listener = nat

subsection \<open>The state and the collaborators\<close>

text \<open>
  The state: the value under the storage key (\<open>None\<close> when the key is absent; the
  stored text is identified with the list it serialises), the fields \<open>listeners\<close> and
  \<open>lastApiCallTime\<close> of the service, the number of collaborator calls made so far, and
  two logs of what the service did to the outside: the remote requests and the listener
  invocations, oldest first.
\<close>

record state =
  storage :: "notification list option"
  listeners :: "listener list"
  lastApiCallTime :: int
  calls :: nat
  requests :: "request list"
  delivered :: "(listener \<times> notification list) list"

text \<open>
  The collaborators during one call of a method: the clock, the locale rendering of the
  current date, and the outcome of every collaborator call, by the number of the call.
\<close>

record env =
  now :: int
  localeString :: string
  getItem_throws :: "nat \<Rightarrow> bool"
  setItem_throws :: "nat \<Rightarrow> bool"
  removeItem_throws :: "nat \<Rightarrow> bool"
  currentUser :: "nat \<Rightarrow> exn + user option"
  apiCall :: "nat \<Rightarrow> exn + http_response"
  listener_throws :: "listener \<Rightarrow> nat \<Rightarrow> bool"

type_synonym 'a io = "state \<Rightarrow> (exn + 'a) \<times> state"

definition io_return :: "'a \<Rightarrow> 'a io" where
  "io_return x = (\<lambda>s. (Inr x, s))"

definition io_bind :: "'a io \<Rightarrow> ('a \<Rightarrow> 'b io) \<Rightarrow> 'b io" where
  "io_bind m f = (\<lambda>s. case m s of (Inl e, s') \<Rightarrow> (Inl e, s') | (Inr x, s') \<Rightarrow> f x s')"

definition try_catch :: "'a io \<Rightarrow> (exn \<Rightarrow> 'a io) \<Rightarrow> 'a io" where
  "try_catch m h = (\<lambda>s. case m s of (Inl e, s') \<Rightarrow> h e s' | (Inr x, s') \<Rightarrow> (Inr x, s'))"

definition tick :: "state \<Rightarrow> state" where
  "tick s = s\<lparr>calls := Suc (calls s)\<rparr>"

definition AsyncStorage_getItem :: "env \<Rightarrow> notification list option io" where
  "AsyncStorage_getItem env = (\<lambda>s.
     if getItem_throws env (calls s) then (Inl StorageError, tick s)
     else (Inr (storage s), tick s))"

definition AsyncStorage_setItem :: "env \<Rightarrow> notification list \<Rightarrow> unit io" where
  "AsyncStorage_setItem env v = (\<lambda>s.
     if setItem_throws env (calls s) then (Inl StorageError, tick s)
     else (Inr (), tick (s\<lparr>storage := Some v\<rparr>)))"

definition AsyncStorage_removeItem :: "env \<Rightarrow> unit io" where
  "AsyncStorage_removeItem env = (\<lambda>s.
     if removeItem_throws env (calls s) then (Inl StorageError, tick s)
     else (Inr (), tick (s\<lparr>storage := None\<rparr>)))"

text \<open>\<open>stored ? JSON.parse(stored) : []\<close>\<close>

definition parse_stored :: "notification list option \<Rightarrow> notification list" where
  "parse_stored stored = (case stored of None \<Rightarrow> [] | Some ns \<Rightarrow> ns)"

definition getCurrentUser :: "env \<Rightarrow> user option io" where
  "getCurrentUser env = (\<lambda>s. (currentUser env (calls s), tick s))"

definition makeApiCall :: "env \<Rightarrow> request \<Rightarrow> http_response io" where
  "makeApiCall env req = (\<lambda>s.
     (apiCall env (calls s), tick (s\<lparr>requests := requests s @ [req]\<rparr>)))"

definition response_json :: "http_response \<Rightarrow> api_payload io" where
  "response_json response =
     (case json response of None \<Rightarrow> (\<lambda>s. (Inl JsonError, s)) | Some d \<Rightarrow> io_return d)"

definition Date_now :: "env \<Rightarrow> int io" where
  "Date_now env = io_return (now env)"

definition call_listener :: "env \<Rightarrow> notification list \<Rightarrow> listener \<Rightarrow> unit io" where
  "call_listener env ns l = (\<lambda>s.
     (if listener_throws env l (calls s) then Inl ListenerError else Inr (),
      tick (s\<lparr>delivered := delivered s @ [(l, ns)]\<rparr>)))"

subsection \<open>Strings\<close>

text \<open>JavaScript's truthiness of an optional string: absent and empty are falsy.\<close>

definition truthy :: "string option \<Rightarrow> bool" where
  "truthy v = (case v of None \<Rightarrow> False | Some t \<Rightarrow> t \<noteq> [])"

text \<open>\<open>String.prototype.includes\<close>\<close>

fun str_includes :: "string \<Rightarrow> string \<Rightarrow> bool" where
  "str_includes [] sub = (sub = [])"
| "str_includes (c # cs) sub = (prefix sub (c # cs) \<or> str_includes cs sub)"

text \<open>\<open>Number.prototype.toString\<close> on an integer: its decimal digits.\<close>

definition digit_char :: "nat \<Rightarrow> char" where
  "digit_char d = char_of (48 + d)"

function digits :: "nat \<Rightarrow> string" where
  "digits n = (if n < 10 then [digit_char n] else digits (n div 10) @ [digit_char (n mod 10)])"
  by pat_completeness auto
termination
  by (relation "measure id") auto

declare digits.simps [simp del]

definition toString :: "int \<Rightarrow> string" where
  "toString i = (if i < 0 then CHR ''-'' # digits (nat (- i)) else digits (nat i))"

subsection \<open>subscribe and notifyListeners\<close>

text \<open>The closure that \<open>subscribe\<close> returns: it keeps the listeners that are not the
  subscribed one.\<close>

definition unsubscribe :: "listener \<Rightarrow> state \<Rightarrow> state" where
  "unsubscribe listener s = s\<lparr>listeners := filter (\<lambda>l. l \<noteq> listener) (listeners s)\<rparr>"

definition subscribe :: "listener \<Rightarrow> state \<Rightarrow> (state \<Rightarrow> state) \<times> state" where
  "subscribe listener s = (unsubscribe listener, s\<lparr>listeners := listeners s @ [listener]\<rparr>)"

fun forEach :: "('a \<Rightarrow> unit io) \<Rightarrow> 'a list \<Rightarrow> unit io" where
  "forEach f [] = io_return ()"
| "forEach f (x # xs) = io_bind (f x) (\<lambda>_. forEach f xs)"

definition notifyListeners :: "env \<Rightarrow> notification list \<Rightarrow> unit io" where
  "notifyListeners env ns = (\<lambda>s. forEach (call_listener env ns) (listeners s) s)"

subsection \<open>filterNotificationsByUserType\<close>

definition isPetSitter :: "user \<Rightarrow> bool" where
  "isPetSitter u = (userType u = Some ''pet_sitter'' \<or> role u = Some ''pet_sitter'')"

text \<open>\<open>notification.data?.status\<close>\<close>

definition data_status :: "notification \<Rightarrow> string option" where
  "data_status n = (case data n of None \<Rightarrow> None | Some d \<Rightarrow> map_of d ''status'')"

definition isBookingWithStatus :: "notification \<Rightarrow> bool" where
  "isBookingWithStatus n =
     (ntype n = Booking \<and>
      (data_status n = Some ''confirmed'' \<or>
       data_status n = Some ''cancelled'' \<or>
       str_includes (title n) ''confirmed'' \<or>
       str_includes (title n) ''cancelled''))"

definition isMessageOrSystem :: "notification \<Rightarrow> bool" where
  "isMessageOrSystem n = (ntype n = Message \<or> ntype n = System)"

text \<open>The callback of \<open>notifications.filter\<close>.\<close>

definition matches :: "user \<Rightarrow> notification \<Rightarrow> bool" where
  "matches u n =
     (if truthy (userId n) then userId n = Some (uid u)
      else if isPetSitter u then
        (ntype n = Booking \<or> ntype n = Message \<or> ntype n = Review \<or> ntype n = System)
      else (isBookingWithStatus n \<or> isMessageOrSystem n))"

definition filterNotificationsByUserType :: "env \<Rightarrow> notification list \<Rightarrow> notification list io" where
  "filterNotificationsByUserType env ns =
     try_catch
       (io_bind (getCurrentUser env) (\<lambda>u.
          case u of
            None \<Rightarrow> io_return ns
          | Some u \<Rightarrow> io_return (filter (matches u) ns)))
       (\<lambda>error. io_return ns)"

subsection \<open>fetchNotificationsFromAPI\<close>

definition apiCallDebounceMs :: int where
  "apiCallDebounceMs = 3000"

text \<open>The token of the request: the user's own, or one of the two built-in ones.\<close>

definition authToken :: "user \<Rightarrow> string option" where
  "authToken u =
     (if truthy (token u) then token u
      else if uid u = ''5'' then Some ''64|dTO5Gio05Om1Buxtkta02gVpvQnetCTMrofsLjeudda0034b''
      else if uid u = ''21'' then Some ''67|uCtobaBZatzbzDOeK8k1DytVHby0lpa07ERJJczu3cdfa507''
      else None)"

definition or_default :: "string option \<Rightarrow> string \<Rightarrow> string" where
  "or_default v d = (if truthy v then (case v of Some t \<Rightarrow> t | None \<Rightarrow> d) else d)"

definition fromApi :: "api_notification \<Rightarrow> notification" where
  "fromApi apiNotif =
     \<lparr> nid = toString (api_id apiNotif),
       ntype = (case api_type apiNotif of None \<Rightarrow> System | Some t \<Rightarrow> t),
       title = or_default (api_title apiNotif) ''Notification'',
       message = or_default (api_message apiNotif) [],
       time = created_at apiNotif,
       isRead = truthy (read_at apiNotif),
       action = None,
       data = api_data apiNotif,
       userId = None \<rparr>"

definition read_lastApiCallTime :: "int io" where
  "read_lastApiCallTime = (\<lambda>s. (Inr (lastApiCallTime s), s))"

definition write_lastApiCallTime :: "int \<Rightarrow> unit io" where
  "write_lastApiCallTime t = (\<lambda>s. (Inr (), s\<lparr>lastApiCallTime := t\<rparr>))"

definition fetchNotificationsFromAPI :: "env \<Rightarrow> notification list io" where
  "fetchNotificationsFromAPI env =
     try_catch
       (io_bind (Date_now env) (\<lambda>nowMs.
        io_bind read_lastApiCallTime (\<lambda>last.
          if nowMs - last < apiCallDebounceMs then io_return []
          else
            io_bind (write_lastApiCallTime nowMs) (\<lambda>_.
            io_bind (getCurrentUser env) (\<lambda>u.
              case u of
                None \<Rightarrow> io_return []
              | Some u \<Rightarrow>
                  (case authToken u of
                    None \<Rightarrow> io_return []
                  | Some tok \<Rightarrow>
                      io_bind (makeApiCall env (GET_notifications tok)) (\<lambda>response.
                        if ok response then
                          io_bind (response_json response) (\<lambda>d.
                            case (success d, notifications d) of
                              (True, Some apiNotifs) \<Rightarrow> io_return (map fromApi apiNotifs)
                            | _ \<Rightarrow> io_return [])
                        else io_return [])))))))
       (\<lambda>error. io_return [])"

subsection \<open>The remote updates of the read state\<close>

definition markAsReadOnAPI :: "env \<Rightarrow> string \<Rightarrow> unit io" where
  "markAsReadOnAPI env notificationId =
     io_bind (getCurrentUser env) (\<lambda>u.
       case u of
         None \<Rightarrow> io_return ()
       | Some u \<Rightarrow>
           (case authToken u of
             None \<Rightarrow> io_return ()
           | Some tok \<Rightarrow>
               io_bind (makeApiCall env (PUT_read notificationId tok)) (\<lambda>response.
                 io_return ())))"

definition markAllAsReadOnAPI :: "env \<Rightarrow> unit io" where
  "markAllAsReadOnAPI env =
     io_bind (getCurrentUser env) (\<lambda>u.
       case u of
         None \<Rightarrow> io_return ()
       | Some u \<Rightarrow>
           (case authToken u of
             None \<Rightarrow> io_return ()
           | Some tok \<Rightarrow>
               io_bind (makeApiCall env (PUT_mark_all_read tok)) (\<lambda>response.
                 io_return ())))"

subsection \<open>The public methods\<close>

text \<open>
  Where a method ends a \<open>try\<close> block with \<open>return this.filterNotificationsByUserType(...)\<close>,
  the filter is written inside the block; the filter never throws
  (lemma \<open>filterNotificationsByUserType_eq\<close>), so its place makes no difference.
\<close>

definition saveNotifications :: "env \<Rightarrow> notification list \<Rightarrow> unit io" where
  "saveNotifications env ns =
     try_catch
       (io_bind (AsyncStorage_setItem env ns) (\<lambda>_. notifyListeners env ns))
       (\<lambda>error. io_return ())"

definition getNotifications :: "env \<Rightarrow> notification list io" where
  "getNotifications env =
     try_catch
       (io_bind (fetchNotificationsFromAPI env) (\<lambda>apiNotifications.
          if length apiNotifications > 0 then
            io_bind (saveNotifications env apiNotifications) (\<lambda>_.
              filterNotificationsByUserType env apiNotifications)
          else
            io_bind (AsyncStorage_getItem env) (\<lambda>stored.
              filterNotificationsByUserType env (parse_stored stored))))
       (\<lambda>error.
          try_catch
            (io_bind (AsyncStorage_getItem env) (\<lambda>stored.
               filterNotificationsByUserType env (parse_stored stored)))
            (\<lambda>localError. io_return []))"

text \<open>\<open>addNotification\<close> and \<open>addNotificationForUser\<close>. \<open>Date.now()\<close> and
  \<open>new Date().toLocaleString()\<close> are read from the environment.\<close>

definition addNotification :: "env \<Rightarrow> targeted_draft \<Rightarrow> notification io" where
  "addNotification env notification =
     io_bind (AsyncStorage_getItem env) (\<lambda>stored.
       let newNotification =
             \<lparr> nid = toString (now env),
               ntype = d_type notification,
               title = d_title notification,
               message = d_message notification,
               time = localeString env,
               isRead = False,
               action = d_action notification,
               data = d_data notification,
               userId = d_userId notification \<rparr>;
           allNotifications = newNotification # parse_stored stored in
       io_bind (AsyncStorage_setItem env allNotifications) (\<lambda>_.
       io_bind (filterNotificationsByUserType env allNotifications) (\<lambda>filteredNotifications.
       io_bind (notifyListeners env filteredNotifications) (\<lambda>_.
         io_return newNotification))))"

definition addNotificationForUser :: "env \<Rightarrow> string \<Rightarrow> draft \<Rightarrow> notification io" where
  "addNotificationForUser env target notification =
     io_bind (AsyncStorage_getItem env) (\<lambda>stored.
       let newNotification =
             \<lparr> nid = toString (now env),
               ntype = d_type notification,
               title = d_title notification,
               message = d_message notification,
               time = localeString env,
               isRead = False,
               action = d_action notification,
               data = d_data notification,
               userId = Some target \<rparr>;
           allNotifications = newNotification # parse_stored stored in
       io_bind (AsyncStorage_setItem env allNotifications) (\<lambda>_.
       io_bind (filterNotificationsByUserType env allNotifications) (\<lambda>filteredNotifications.
       io_bind (notifyListeners env filteredNotifications) (\<lambda>_.
         io_return newNotification))))"

definition markAsRead :: "env \<Rightarrow> string \<Rightarrow> unit io" where
  "markAsRead env notificationId =
     io_bind (try_catch (markAsReadOnAPI env notificationId) (\<lambda>error. io_return ())) (\<lambda>_.
     io_bind (AsyncStorage_getItem env) (\<lambda>stored.
       let updated = map (\<lambda>n. if nid n = notificationId then n\<lparr>isRead := True\<rparr> else n)
                         (parse_stored stored) in
       io_bind (AsyncStorage_setItem env updated) (\<lambda>_.
       io_bind (filterNotificationsByUserType env updated) (\<lambda>filteredNotifications.
         notifyListeners env filteredNotifications))))"

definition markAllAsRead :: "env \<Rightarrow> unit io" where
  "markAllAsRead env =
     io_bind (try_catch (markAllAsReadOnAPI env) (\<lambda>error. io_return ())) (\<lambda>_.
     io_bind (AsyncStorage_getItem env) (\<lambda>stored.
       let updated = map (\<lambda>n. n\<lparr>isRead := True\<rparr>) (parse_stored stored) in
       io_bind (AsyncStorage_setItem env updated) (\<lambda>_.
       io_bind (filterNotificationsByUserType env updated) (\<lambda>filteredNotifications.
         notifyListeners env filteredNotifications))))"

definition deleteNotification :: "env \<Rightarrow> string \<Rightarrow> unit io" where
  "deleteNotification env notificationId =
     io_bind (AsyncStorage_getItem env) (\<lambda>stored.
       let updated = filter (\<lambda>n. nid n \<noteq> notificationId) (parse_stored stored) in
       io_bind (AsyncStorage_setItem env updated) (\<lambda>_.
       io_bind (filterNotificationsByUserType env updated) (\<lambda>filteredNotifications.
         notifyListeners env filteredNotifications)))"

definition getUnreadCount :: "env \<Rightarrow> nat io" where
  "getUnreadCount env =
     io_bind (getNotifications env) (\<lambda>ns.
       io_return (length (filter (\<lambda>n. \<not> isRead n) ns)))"

definition clearAllNotifications :: "env \<Rightarrow> unit io" where
  "clearAllNotifications env =
     io_bind (AsyncStorage_removeItem env) (\<lambda>_. notifyListeners env [])"

definition refreshNotifications :: "env \<Rightarrow> notification list io" where
  "refreshNotifications env =
     try_catch
       (io_bind (write_lastApiCallTime 0) (\<lambda>_.
        io_bind (fetchNotificationsFromAPI env) (\<lambda>apiNotifications.
          if length apiNotifications > 0 then
            io_bind (saveNotifications env apiNotifications) (\<lambda>_.
              filterNotificationsByUserType env apiNotifications)
          else
            io_bind (AsyncStorage_getItem env) (\<lambda>stored.
              filterNotificationsByUserType env (parse_stored stored)))))
       (\<lambda>error.
          io_bind (AsyncStorage_getItem env) (\<lambda>stored.
            filterNotificationsByUserType env (parse_stored stored)))"

subsection \<open>Notions used in the statements\<close>

text \<open>The canonical list: what the storage key holds, empty when the key is absent.\<close>

definition canonical :: "state \<Rightarrow> notification list" where
  "canonical s = parse_stored (storage s)"

text \<open>The view of a list for an outcome of \<open>getCurrentUser\<close>: filtered for a resolved
  user, the list itself when no user is resolved or the call throws.\<close>

definition visible_to :: "exn + user option \<Rightarrow> notification list \<Rightarrow> notification list" where
  "visible_to who ns = (case who of Inr (Some u) \<Rightarrow> filter (matches u) ns | _ \<Rightarrow> ns)"

text \<open>The number of fetch requests sent so far.\<close>

fun is_fetch :: "request \<Rightarrow> bool" where
  "is_fetch (GET_notifications tok) = True"
| "is_fetch (PUT_read i tok) = False"
| "is_fetch (PUT_mark_all_read tok) = False"

definition fetch_count :: "state \<Rightarrow> nat" where
  "fetch_count s = length (filter is_fetch (requests s))"

text \<open>A method preserves a component of the state; a method always returns.\<close>

definition preserves :: "(state \<Rightarrow> 'b) \<Rightarrow> 'a io \<Rightarrow> bool" where
  "preserves g m = (\<forall>s. g (snd (m s)) = g s)"

definition returns :: "'a io \<Rightarrow> bool" where
  "returns m = (\<forall>s. \<exists>x s'. m s = (Inr x, s'))"

text \<open>The appends of a client, run one after the other, each with the collaborators of
  its moment: the notifications the calls returned, in the order of the calls, and the
  state at the end.\<close>

datatype append_call = Add targeted_draft | AddForUser string draft

fun append :: "env \<Rightarrow> append_call \<Rightarrow> notification io" where
  "append env (Add d) = addNotification env d"
| "append env (AddForUser target d) = addNotificationForUser env target d"

text \<open>The notification that an append builds.\<close>

definition created :: "env \<Rightarrow> append_call \<Rightarrow> notification" where
  "created env c =
     (case c of
        Add d \<Rightarrow>
          \<lparr> nid = toString (now env), ntype = d_type d, title = d_title d,
            message = d_message d, time = localeString env, isRead = False,
            action = d_action d, data = d_data d, userId = d_userId d \<rparr>
      | AddForUser target d \<Rightarrow>
          \<lparr> nid = toString (now env), ntype = d_type d, title = d_title d,
            message = d_message d, time = localeString env, isRead = False,
            action = d_action d, data = d_data d, userId = Some target \<rparr>)"

fun run_appends :: "(env \<times> append_call) list \<Rightarrow> state \<Rightarrow> notification list \<times> state" where
  "run_appends [] s = ([], s)"
| "run_appends ((env, c) # cs) s =
     (case append env c s of
        (Inl e, s') \<Rightarrow> run_appends cs s'
      | (Inr n, s') \<Rightarrow> (case run_appends cs s' of (ns, s'') \<Rightarrow> (n # ns, s'')))"

text \<open>A run of \<open>getNotifications\<close> calls: the state at the end.\<close>

fun run_lists :: "env list \<Rightarrow> state \<Rightarrow> state" where
  "run_lists [] s = s"
| "run_lists (env # envs) s = run_lists envs (snd (getNotifications env s))"

text \<open>The calls that are neither \<open>getNotifications\<close>, \<open>getUnreadCount\<close> nor
  \<open>refreshNotifications\<close>.\<close>

datatype call =
    Subscribe listener
  | Unsubscribe listener
  | AddNotification targeted_draft
  | AddNotificationForUser string draft
  | MarkAsRead string
  | MarkAllAsRead
  | DeleteNotification string
  | ClearAllNotifications

fun perform :: "env \<Rightarrow> call \<Rightarrow> unit io" where
  "perform env (Subscribe l) = (\<lambda>s. (Inr (), snd (subscribe l s)))"
| "perform env (Unsubscribe l) = (\<lambda>s. (Inr (), unsubscribe l s))"
| "perform env (AddNotification d) = io_bind (addNotification env d) (\<lambda>_. io_return ())"
| "perform env (AddNotificationForUser target d) =
     io_bind (addNotificationForUser env target d) (\<lambda>_. io_return ())"
| "perform env (MarkAsRead i) = markAsRead env i"
| "perform env MarkAllAsRead = markAllAsRead env"
| "perform env (DeleteNotification i) = deleteNotification env i"
| "perform env ClearAllNotifications = clearAllNotifications env"

text \<open>A step of a client between two reads: one of the calls above, or a read
  (\<open>getNotifications\<close> or \<open>getUnreadCount\<close>); never \<open>refreshNotifications\<close>. A run of
  steps, each with the collaborators of its moment: the state at the end.\<close>

datatype step = Do call | List | UnreadCount

fun is_read :: "step \<Rightarrow> bool" where
  "is_read (Do c) = False"
| "is_read List = True"
| "is_read UnreadCount = True"

fun perform_step :: "env \<Rightarrow> step \<Rightarrow> state \<Rightarrow> state" where
  "perform_step env (Do c) s = snd (perform env c s)"
| "perform_step env List s = snd (getNotifications env s)"
| "perform_step env UnreadCount s = snd (getUnreadCount env s)"

fun run_steps :: "(env \<times> step) list \<Rightarrow> state \<Rightarrow> state" where
  "run_steps [] s = s"
| "run_steps ((env, st) # sts) s = run_steps sts (perform_step env st s)"

fun touches_storage :: "call \<Rightarrow> bool" where
  "touches_storage (Subscribe l) = False"
| "touches_storage (Unsubscribe l) = False"
| "touches_storage c = True"

text \<open>The sequence that the adding, marking and deleting methods share: read the list,
  write the changed list back, filter it and call the listeners with the view.\<close>

definition rewrite_stored :: "env \<Rightarrow> (notification list \<Rightarrow> notification list) \<Rightarrow> unit io" where
  "rewrite_stored env f =
     io_bind (AsyncStorage_getItem env) (\<lambda>stored.
     io_bind (AsyncStorage_setItem env (f (parse_stored stored))) (\<lambda>_.
     io_bind (filterNotificationsByUserType env (f (parse_stored stored))) (\<lambda>filteredNotifications.
       notifyListeners env filteredNotifications)))"

subsection \<open>Sample states and collaborators\<close>

text \<open>The state of a fresh process, and collaborators that never fail: no user is
  signed in and the network is down.\<close>

definition fresh :: state where
  "fresh = \<lparr> storage = None, listeners = [], lastApiCallTime = 0, calls = 0,
             requests = [], delivered = [] \<rparr>"

definition offline :: env where
  "offline = \<lparr> now = 5000, localeString = ''11/2/2026, 10:00:00 AM'',
               getItem_throws = (\<lambda>k. False), setItem_throws = (\<lambda>k. False),
               removeItem_throws = (\<lambda>k. False),
               currentUser = (\<lambda>k. Inr None),
               apiCall = (\<lambda>k. Inl NetworkError),
               listener_throws = (\<lambda>l k. False) \<rparr>"

definition owner7 :: user where
  "owner7 = \<lparr> uid = ''7'', token = Some ''secret'', userType = Some ''pet_owner'', role = None \<rparr>"

definition sitter5 :: user where
  "sitter5 = \<lparr> uid = ''5'', token = None, userType = None, role = Some ''pet_sitter'' \<rparr>"

definition signed_in :: "user \<Rightarrow> env" where
  "signed_in u = offline\<lparr>currentUser := (\<lambda>k. Inr (Some u))\<rparr>"

definition storage_down :: env where
  "storage_down = offline\<lparr>getItem_throws := (\<lambda>k. True), setItem_throws := (\<lambda>k. True),
                          removeItem_throws := (\<lambda>k. True)\<rparr>"

definition write_fails :: env where
  "write_fails = offline\<lparr>setItem_throws := (\<lambda>k. True)\<rparr>"

definition remove_fails :: env where
  "remove_fails = offline\<lparr>removeItem_throws := (\<lambda>k. True)\<rparr>"

definition memo :: "string \<Rightarrow> notification_type \<Rightarrow> string \<Rightarrow> string option \<Rightarrow> notification" where
  "memo i ty ttl target =
     \<lparr> nid = i, ntype = ty, title = ttl, message = [], time = [], isRead = False,
       action = None, data = None, userId = target \<rparr>"

definition two_stored :: state where
  "two_stored = fresh\<lparr>storage := Some [memo ''1'' Message ''Hello'' None,
                                        memo ''2'' System ''Welcome'' None],
                      listeners := [4, 9]\<rparr>"

text \<open>The remote feed holds one review; the pet owner with id 7 is signed in.\<close>

definition remote_review :: env where
  "remote_review = (signed_in owner7)\<lparr>apiCall := (\<lambda>k. Inr (HttpResponse True (Some
     \<lparr> success = True,
       notifications = Some [\<lparr> api_id = 7, api_type = Some Review,
         api_title = Some ''How was your stay?'', api_message = Some ''Rate your sitter'',
         created_at = ''2026-11-02T10:00:00Z'', read_at = None, api_data = None \<rparr>] \<rparr>)))\<rparr>"

text \<open>Two arguments of the appends.\<close>

definition greeting :: targeted_draft where
  "greeting = \<lparr> d_type = Message, d_title = ''New Message'', d_message = ''Ana: hello'',
                d_action = Some ''Reply'', d_data = None, d_userId = None \<rparr>"

definition booking_request :: draft where
  "booking_request = \<lparr> d_type = Booking, d_title = ''New Booking Request'',
                       d_message = ''Ana wants to book you'', d_action = Some ''View Request'',
                       d_data = Some [(''bookingId'', ''12'')] \<rparr>"

section \<open>Properties\<close>

subsection \<open>The combinators\<close>

lemma io_bind_assoc: "io_bind (io_bind m f) g = io_bind m (\<lambda>x. io_bind (f x) g)"
  by (rule ext) (simp add: io_bind_def split: prod.splits sum.splits)

lemma returns_return: "returns (io_return x)"
  by (simp add: returns_def io_return_def)

lemma returns_bind: "returns m \<Longrightarrow> (\<And>x. returns (f x)) \<Longrightarrow> returns (io_bind m f)"
  unfolding returns_def io_bind_def
  by (metis (no_types, lifting) old.prod.case old.sum.simps(6))

lemma returns_try: "(\<And>e. returns (h e)) \<Longrightarrow> returns (try_catch m h)"
  unfolding returns_def try_catch_def
  by (auto split: prod.splits sum.splits)

lemma preserves_return: "preserves g (io_return x)"
  by (simp add: preserves_def io_return_def)

lemma preserves_bind:
  "preserves g m \<Longrightarrow> (\<And>x. preserves g (f x)) \<Longrightarrow> preserves g (io_bind m f)"
  unfolding preserves_def io_bind_def
  by (auto split: prod.splits sum.splits) (metis snd_conv)+

lemma preserves_try:
  "preserves g m \<Longrightarrow> (\<And>e. preserves g (h e)) \<Longrightarrow> preserves g (try_catch m h)"
  unfolding preserves_def try_catch_def
  by (auto split: prod.splits sum.splits) (metis snd_conv)+

subsection \<open>Strings\<close>

lemma str_includes_iff: "str_includes s sub \<longleftrightarrow> (\<exists>p q. s = p @ sub @ q)"
proof (induction s)
  case Nil
  then show ?case by auto
next
  case (Cons c cs)
  show ?case
  proof
    assume "str_includes (c # cs) sub"
    then consider "prefix sub (c # cs)" | "str_includes cs sub" by auto
    then show "\<exists>p q. c # cs = p @ sub @ q"
    proof cases
      case 1
      then obtain q where "c # cs = sub @ q" by (auto simp: prefix_def)
      then have "c # cs = [] @ sub @ q" by simp
      then show ?thesis by blast
    next
      case 2
      with Cons.IH obtain p q where "cs = p @ sub @ q" by blast
      then have "c # cs = (c # p) @ sub @ q" by simp
      then show ?thesis by blast
    qed
  next
    assume "\<exists>p q. c # cs = p @ sub @ q"
    then obtain p q where pq: "c # cs = p @ sub @ q" by blast
    show "str_includes (c # cs) sub"
    proof (cases p)
      case Nil
      with pq have "prefix sub (c # cs)" by (simp add: prefix_def)
      then show ?thesis by simp
    next
      case (Cons a p')
      with pq have "cs = p' @ sub @ q" by simp
      with Cons.IH have "str_includes cs sub" by blast
      then show ?thesis by simp
    qed
  qed
qed

subsection \<open>The filter\<close>

text \<open>The filter never throws: it returns the view for the outcome of its one call of
  \<open>getCurrentUser\<close>.\<close>

lemma filterNotificationsByUserType_eq:
  "filterNotificationsByUserType env ns s =
     (Inr (visible_to (currentUser env (calls s)) ns), tick s)"
  by (simp add: filterNotificationsByUserType_def try_catch_def io_bind_def getCurrentUser_def
      io_return_def visible_to_def split: sum.splits option.splits)

text \<open>
  C6, amended. For a notification whose \<open>userId\<close> is a non-empty string and a resolved
  user, the notification is in the filtered view if and only if it is in the input and
  its \<open>userId\<close> equals the user's id, whatever its type and the user's role. When no user
  is resolved, the filter returns its input unchanged.
\<close>

theorem targeted_filter:
  "(currentUser env (calls s) = Inr (Some u) \<and> userId n = Some target \<and> target \<noteq> [] \<longrightarrow>
      (\<exists>vs. fst (filterNotificationsByUserType env ns s) = Inr vs \<and>
            (n \<in> set vs \<longleftrightarrow> n \<in> set ns \<and> target = uid u))) \<and>
   (currentUser env (calls s) = Inr None \<longrightarrow>
      fst (filterNotificationsByUserType env ns s) = Inr ns)"
  by (auto simp: filterNotificationsByUserType_eq visible_to_def matches_def truthy_def)

theorem targeted_filter_witness:
  "(\<exists>vs. fst (filterNotificationsByUserType (signed_in owner7)
               [memo ''1'' Review ''a'' (Some ''7''), memo ''2'' Message ''b'' (Some ''5'')]
               fresh) = Inr vs \<and>
         memo ''1'' Review ''a'' (Some ''7'') \<in> set vs) \<and>
   (\<exists>vs. fst (filterNotificationsByUserType (signed_in owner7)
               [memo ''1'' Review ''a'' (Some ''7''), memo ''2'' Message ''b'' (Some ''5'')]
               fresh) = Inr vs \<and>
         memo ''2'' Message ''b'' (Some ''5'') \<notin> set vs) \<and>
   fst (filterNotificationsByUserType offline [memo ''2'' Message ''b'' (Some ''5'')] fresh)
     = Inr [memo ''2'' Message ''b'' (Some ''5'')]"
  using targeted_filter [of "signed_in owner7" fresh owner7
      "memo ''1'' Review ''a'' (Some ''7'')" "''7''"
      "[memo ''1'' Review ''a'' (Some ''7''), memo ''2'' Message ''b'' (Some ''5'')]"]
    targeted_filter [of "signed_in owner7" fresh owner7
      "memo ''2'' Message ''b'' (Some ''5'')" "''5''"
      "[memo ''1'' Review ''a'' (Some ''7''), memo ''2'' Message ''b'' (Some ''5'')]"]
    targeted_filter [of offline fresh owner7
      "memo ''2'' Message ''b'' (Some ''5'')" "''5''"
      "[memo ''2'' Message ''b'' (Some ''5'')]"]
  by (simp add: signed_in_def offline_def fresh_def memo_def owner7_def)

text \<open>The claim as written fails for the empty string: a review whose \<open>userId\<close> is the
  empty string is shown to the sitter with id 5, since the test
  \<open>if (notification.userId)\<close> takes the empty string for an absent field.\<close>

theorem targeted_filter_counterexample:
  "userId (memo ''1'' Review ''Rate your stay'' (Some [])) = Some [] \<and>
   uid sitter5 = ''5'' \<and>
   fst (filterNotificationsByUserType (signed_in sitter5)
          [memo ''1'' Review ''Rate your stay'' (Some [])] fresh)
     = Inr [memo ''1'' Review ''Rate your stay'' (Some [])]"
  by (simp add: filterNotificationsByUserType_eq visible_to_def signed_in_def offline_def
      fresh_def memo_def sitter5_def matches_def truthy_def isPetSitter_def)

text \<open>
  C7. For a notification without \<open>userId\<close> and a resolved user who is not a pet sitter,
  the notification is in the filtered view if and only if it is in the input and its type
  is message or system, or its type is booking and its \<open>data.status\<close> is confirmed or
  cancelled or its title contains \<open>confirmed\<close> or \<open>cancelled\<close>. So a review is never in
  the view, nor is a booking with no status whose title contains neither word.
\<close>

theorem owner_filter:
  assumes "currentUser env (calls s) = Inr (Some u)" and "\<not> isPetSitter u"
    and "userId n = None"
  shows "\<exists>vs. fst (filterNotificationsByUserType env ns s) = Inr vs \<and>
      (n \<in> set vs \<longleftrightarrow>
         n \<in> set ns \<and>
         (ntype n = Message \<or> ntype n = System \<or>
          ntype n = Booking \<and>
            (data_status n = Some ''confirmed'' \<or> data_status n = Some ''cancelled'' \<or>
             (\<exists>p q. title n = p @ ''confirmed'' @ q) \<or>
             (\<exists>p q. title n = p @ ''cancelled'' @ q)))) \<and>
      (ntype n = Review \<longrightarrow> n \<notin> set vs) \<and>
      (ntype n = Booking \<and> data_status n = None \<and>
         \<not> (\<exists>p q. title n = p @ ''confirmed'' @ q) \<and>
         \<not> (\<exists>p q. title n = p @ ''cancelled'' @ q)
         \<longrightarrow> n \<notin> set vs)"
  using assms
  by (auto simp: filterNotificationsByUserType_eq visible_to_def matches_def truthy_def
      isBookingWithStatus_def isMessageOrSystem_def str_includes_iff)

theorem owner_filter_witness:
  "(\<exists>vs. fst (filterNotificationsByUserType (signed_in owner7)
               [(memo ''1'' Booking ''Booking'' None)\<lparr>data := Some [(''status'', ''confirmed'')]\<rparr>,
                memo ''2'' Review ''Rate your stay'' None,
                memo ''3'' Booking ''New Booking Request'' None]
               fresh) = Inr vs \<and>
         (memo ''1'' Booking ''Booking'' None)\<lparr>data := Some [(''status'', ''confirmed'')]\<rparr> \<in> set vs) \<and>
   (\<exists>vs. fst (filterNotificationsByUserType (signed_in owner7)
               [memo ''2'' Review ''Rate your stay'' None] fresh) = Inr vs \<and>
         memo ''2'' Review ''Rate your stay'' None \<notin> set vs)"
proof -
  have user: "currentUser (signed_in owner7) (calls fresh) = Inr (Some owner7)"
    by (simp add: signed_in_def offline_def)
  have owner: "\<not> isPetSitter owner7"
    by (simp add: isPetSitter_def owner7_def)
  have a: "userId ((memo ''1'' Booking ''Booking'' None)\<lparr>data := Some [(''status'', ''confirmed'')]\<rparr>) = None"
    by (simp add: memo_def)
  have b: "userId (memo ''2'' Review ''Rate your stay'' None) = None"
    by (simp add: memo_def)
  show ?thesis
    using owner_filter [OF user owner a, of
        "[(memo ''1'' Booking ''Booking'' None)\<lparr>data := Some [(''status'', ''confirmed'')]\<rparr>,
          memo ''2'' Review ''Rate your stay'' None,
          memo ''3'' Booking ''New Booking Request'' None]"]
      owner_filter [OF user owner b, of "[memo ''2'' Review ''Rate your stay'' None]"]
    by (simp add: memo_def data_status_def)
qed

subsection \<open>Subscriptions\<close>

text \<open>
  C9, amended. \<open>subscribe\<close> appends the callback to the listeners. The closure it returns
  removes every registration of that callback function (so when the same function was
  subscribed twice, both registrations go), keeps the registrations of all other
  callbacks in their order, and is an idempotent no-op when invoked again.
\<close>

theorem unsubscribe_removes_callback:
  "listeners (snd (subscribe l s)) = listeners s @ [l] \<and>
   listeners (fst (subscribe l s) t) = filter (\<lambda>x. x \<noteq> l) (listeners t) \<and>
   fst (subscribe l s) (fst (subscribe l s) t) = fst (subscribe l s) t"
  by (simp add: subscribe_def unsubscribe_def)

text \<open>The claim as written fails when one function is subscribed twice: after the
  first closure is invoked no registration is left, and a later broadcast calls nobody.\<close>

theorem unsubscribe_counterexample:
  "listeners (snd (subscribe 1 (snd (subscribe 1 fresh)))) = [1, 1] \<and>
   listeners (fst (subscribe 1 fresh) (snd (subscribe 1 (snd (subscribe 1 fresh))))) = [] \<and>
   clearAllNotifications offline
       (fst (subscribe 1 fresh) (snd (subscribe 1 (snd (subscribe 1 fresh)))))
     = (Inr (), fresh\<lparr>calls := 1\<rparr>)"
  by (simp add: subscribe_def unsubscribe_def fresh_def clearAllNotifications_def io_bind_def
      AsyncStorage_removeItem_def offline_def notifyListeners_def tick_def io_return_def)

subsection \<open>Frames and effects of the parts\<close>

lemma forEach_quiet:
  "\<forall>l k. \<not> listener_throws env l k \<Longrightarrow>
   forEach (call_listener env ns) ls s =
     (Inr (), s\<lparr>calls := calls s + length ls, delivered := delivered s @ map (\<lambda>l. (l, ns)) ls\<rparr>)"
proof (induction ls arbitrary: s)
  case Nil
  then show ?case by (simp add: io_return_def)
next
  case (Cons l ls)
  have step: "call_listener env ns l s = (Inr (), tick (s\<lparr>delivered := delivered s @ [(l, ns)]\<rparr>))"
    using Cons.prems by (simp add: call_listener_def)
  show ?case
    by (simp add: io_bind_def step Cons.IH [OF Cons.prems] tick_def)
qed

lemma notifyListeners_quiet:
  "\<forall>l k. \<not> listener_throws env l k \<Longrightarrow>
   notifyListeners env ns s =
     (Inr (), s\<lparr>calls := calls s + length (listeners s),
                delivered := delivered s @ map (\<lambda>l. (l, ns)) (listeners s)\<rparr>)"
  by (simp add: notifyListeners_def forEach_quiet)

lemma preserves_getItem:
  "(\<And>s. g (tick s) = g s) \<Longrightarrow> preserves g (AsyncStorage_getItem env)"
  by (simp add: preserves_def AsyncStorage_getItem_def)

lemma preserves_getCurrentUser:
  "(\<And>s. g (tick s) = g s) \<Longrightarrow> preserves g (getCurrentUser env)"
  by (simp add: preserves_def getCurrentUser_def)

lemma preserves_filter:
  "(\<And>s. g (tick s) = g s) \<Longrightarrow> preserves g (filterNotificationsByUserType env ns)"
  by (simp add: preserves_def filterNotificationsByUserType_eq)

lemma preserves_call_listener:
  "(\<And>s. g (tick s) = g s) \<Longrightarrow> (\<And>s d. g (s\<lparr>delivered := d\<rparr>) = g s) \<Longrightarrow>
   preserves g (call_listener env ns l)"
  by (simp add: preserves_def call_listener_def)

lemma preserves_forEach:
  "(\<And>x. preserves g (f x)) \<Longrightarrow> preserves g (forEach f xs)"
  by (induction xs) (simp_all add: preserves_return preserves_bind)

lemma preserves_notifyListeners:
  "(\<And>s. g (tick s) = g s) \<Longrightarrow> (\<And>s d. g (s\<lparr>delivered := d\<rparr>) = g s) \<Longrightarrow>
   preserves g (notifyListeners env ns)"
  using preserves_forEach [of g "call_listener env ns", OF preserves_call_listener]
  by (simp add: preserves_def notifyListeners_def)

lemma preserves_setItem:
  "(\<And>s. g (tick s) = g s) \<Longrightarrow> (\<And>s v. g (s\<lparr>storage := v\<rparr>) = g s) \<Longrightarrow>
   preserves g (AsyncStorage_setItem env v)"
  by (simp add: preserves_def AsyncStorage_setItem_def)

lemma preserves_saveNotifications:
  "(\<And>s. g (tick s) = g s) \<Longrightarrow> (\<And>s v. g (s\<lparr>storage := v\<rparr>) = g s) \<Longrightarrow>
   (\<And>s d. g (s\<lparr>delivered := d\<rparr>) = g s) \<Longrightarrow>
   preserves g (saveNotifications env ns)"
  unfolding saveNotifications_def
  by (intro preserves_try preserves_bind preserves_return preserves_setItem
      preserves_notifyListeners)

lemma try_bind_frame:
  assumes "\<And>x. preserves g (K x)" and "\<And>e. preserves g (H e)"
  shows "g (snd (try_catch (io_bind m K) H s)) = g (snd (m s))"
  using assms unfolding preserves_def try_catch_def io_bind_def
  by (auto split: prod.splits sum.splits) (metis snd_conv)+

lemma getNotifications_frame:
  assumes "\<And>s. g (tick s) = g s" and "\<And>s v. g (s\<lparr>storage := v\<rparr>) = g s"
    and "\<And>s d. g (s\<lparr>delivered := d\<rparr>) = g s"
  shows "g (snd (getNotifications env s)) = g (snd (fetchNotificationsFromAPI env s))"
  unfolding getNotifications_def
  by (rule try_bind_frame)
    (auto intro!: preserves_try preserves_bind preserves_return preserves_getItem
      preserves_filter preserves_saveNotifications assms)

lemma fetch_debounced:
  "now env - lastApiCallTime s < apiCallDebounceMs \<Longrightarrow>
   fetchNotificationsFromAPI env s = (Inr [], s)"
  by (simp add: fetchNotificationsFromAPI_def try_catch_def io_bind_def Date_now_def
      io_return_def read_lastApiCallTime_def)

lemma fetch_returns: "returns (fetchNotificationsFromAPI env)"
  unfolding fetchNotificationsFromAPI_def by (intro returns_try returns_return)

lemma fetch_attempt:
  assumes "\<not> now env - lastApiCallTime s < apiCallDebounceMs"
  shows "lastApiCallTime (snd (fetchNotificationsFromAPI env s)) = now env"
    and "fetch_count (snd (fetchNotificationsFromAPI env s)) \<le> Suc (fetch_count s)"
  using assms
  by (auto simp: fetchNotificationsFromAPI_def try_catch_def io_bind_def Date_now_def
      io_return_def read_lastApiCallTime_def write_lastApiCallTime_def getCurrentUser_def
      makeApiCall_def response_json_def tick_def fetch_count_def
      split: sum.splits option.splits prod.splits bool.splits)

lemma preserves_removeItem:
  "(\<And>s. g (tick s) = g s) \<Longrightarrow> (\<And>s v. g (s\<lparr>storage := v\<rparr>) = g s) \<Longrightarrow>
   preserves g (AsyncStorage_removeItem env)"
  by (simp add: preserves_def AsyncStorage_removeItem_def)

lemma preserves_makeApiCall:
  "(\<And>s. g (tick s) = g s) \<Longrightarrow> (\<And>s. g (s\<lparr>requests := requests s @ [req]\<rparr>) = g s) \<Longrightarrow>
   preserves g (makeApiCall env req)"
  by (simp add: preserves_def makeApiCall_def)

lemma preserves_markAsReadOnAPI:
  assumes "\<And>s. g (tick s) = g s"
    and "\<And>s r. \<not> is_fetch r \<Longrightarrow> g (s\<lparr>requests := requests s @ [r]\<rparr>) = g s"
  shows "preserves g (markAsReadOnAPI env i)"
  unfolding markAsReadOnAPI_def
  by (auto intro!: preserves_bind preserves_return preserves_getCurrentUser
      preserves_makeApiCall assms split: option.splits)

lemma preserves_markAllAsReadOnAPI:
  assumes "\<And>s. g (tick s) = g s"
    and "\<And>s r. \<not> is_fetch r \<Longrightarrow> g (s\<lparr>requests := requests s @ [r]\<rparr>) = g s"
  shows "preserves g (markAllAsReadOnAPI env)"
  unfolding markAllAsReadOnAPI_def
  by (auto intro!: preserves_bind preserves_return preserves_getCurrentUser
      preserves_makeApiCall assms split: option.splits)

lemma perform_frame:
  assumes "\<And>s. g (tick s) = g s" and "\<And>s v. g (s\<lparr>storage := v\<rparr>) = g s"
    and "\<And>s d. g (s\<lparr>delivered := d\<rparr>) = g s"
    and "\<And>s ls. g (s\<lparr>listeners := ls\<rparr>) = g s"
    and "\<And>s r. \<not> is_fetch r \<Longrightarrow> g (s\<lparr>requests := requests s @ [r]\<rparr>) = g s"
  shows "preserves g (perform env c)"
proof -
  note parts = preserves_bind preserves_try preserves_return preserves_getItem
    preserves_setItem preserves_removeItem preserves_filter preserves_notifyListeners
    preserves_markAsReadOnAPI preserves_markAllAsReadOnAPI
  have "preserves g (addNotification env d)" for d
    unfolding addNotification_def Let_def by (intro parts assms)
  moreover have "preserves g (addNotificationForUser env target d)" for target d
    unfolding addNotificationForUser_def Let_def by (intro parts assms)
  moreover have "preserves g (markAsRead env i)" for i
    unfolding markAsRead_def Let_def by (intro parts assms)
  moreover have "preserves g (markAllAsRead env)"
    unfolding markAllAsRead_def Let_def by (intro parts assms)
  moreover have "preserves g (deleteNotification env i)" for i
    unfolding deleteNotification_def Let_def by (intro parts assms)
  moreover have "preserves g (clearAllNotifications env)"
    unfolding clearAllNotifications_def by (intro parts assms)
  ultimately show ?thesis
    by (cases c)
      (simp_all add: preserves_bind preserves_return,
       simp_all add: preserves_def subscribe_def unsubscribe_def assms)
qed

lemma getNotifications_lastApiCallTime:
  "lastApiCallTime (snd (getNotifications env s)) =
     (if now env - lastApiCallTime s < apiCallDebounceMs then lastApiCallTime s else now env)"
  by (simp add: getNotifications_frame [of lastApiCallTime] tick_def fetch_debounced fetch_attempt)

lemma getNotifications_fetch_count:
  "fetch_count (snd (getNotifications env s)) \<le>
     (if now env - lastApiCallTime s < apiCallDebounceMs then fetch_count s
      else Suc (fetch_count s))"
proof -
  have "fetch_count (snd (getNotifications env s)) =
      fetch_count (snd (fetchNotificationsFromAPI env s))"
    by (rule getNotifications_frame) (simp_all add: tick_def fetch_count_def)
  then show ?thesis
    by (simp add: fetch_debounced fetch_attempt)
qed

lemma getUnreadCount_state: "snd (getUnreadCount env s) = snd (getNotifications env s)"
  by (simp add: getUnreadCount_def io_bind_def io_return_def split: prod.splits sum.splits)

lemma fetch_count_mono:
  "fetch_count s \<le> fetch_count (snd (fetchNotificationsFromAPI env s))"
  by (auto simp: fetchNotificationsFromAPI_def try_catch_def io_bind_def Date_now_def
      io_return_def read_lastApiCallTime_def write_lastApiCallTime_def getCurrentUser_def
      makeApiCall_def response_json_def tick_def fetch_count_def
      split: sum.splits option.splits prod.splits bool.splits)

lemma getNotifications_fetch_count_mono:
  "fetch_count s \<le> fetch_count (snd (getNotifications env s))"
proof -
  have "fetch_count (snd (getNotifications env s)) =
      fetch_count (snd (fetchNotificationsFromAPI env s))"
    by (rule getNotifications_frame) (simp_all add: tick_def fetch_count_def)
  then show ?thesis
    by (simp add: fetch_count_mono)
qed

lemma read_step:
  assumes "is_read st"
  shows "perform_step env st s = snd (getNotifications env s)"
  using assms by (cases st) (simp_all add: getUnreadCount_state)

lemma call_step_lastApiCallTime:
  assumes "\<not> is_read st"
  shows "lastApiCallTime (perform_step env st s) = lastApiCallTime s"
proof -
  obtain c where st: "st = Do c"
    using assms by (cases st) simp_all
  have "preserves lastApiCallTime (perform env c)"
    by (rule perform_frame) (simp_all add: tick_def)
  then show ?thesis
    by (simp add: st preserves_def)
qed

lemma call_step_fetch_count:
  assumes "\<not> is_read st"
  shows "fetch_count (perform_step env st s) = fetch_count s"
proof -
  obtain c where st: "st = Do c"
    using assms by (cases st) simp_all
  have "preserves fetch_count (perform env c)"
    by (rule perform_frame) (simp_all add: tick_def fetch_count_def)
  then show ?thesis
    by (simp add: st preserves_def)
qed

lemma step_lastApiCallTime_mono:
  "lastApiCallTime s \<le> lastApiCallTime (perform_step env st s)"
proof (cases "is_read st")
  case True
  then show ?thesis
    by (simp add: read_step getNotifications_lastApiCallTime apiCallDebounceMs_def)
next
  case False
  then show ?thesis
    by (simp add: call_step_lastApiCallTime)
qed

lemma run_steps_lastApiCallTime_mono:
  "lastApiCallTime s \<le> lastApiCallTime (run_steps sts s)"
proof (induction sts arbitrary: s)
  case Nil
  show ?case by simp
next
  case (Cons a sts)
  obtain env st where a: "a = (env, st)" by (cases a)
  have "lastApiCallTime s \<le> lastApiCallTime (perform_step env st s)"
    by (rule step_lastApiCallTime_mono)
  also have "\<dots> \<le> lastApiCallTime (run_steps sts (perform_step env st s))"
    by (rule Cons.IH)
  finally show ?case
    by (simp add: a)
qed

text \<open>Reads that all happen in an interval shorter than the window send one fetch
  request at most.\<close>

lemma step_in_window:
  assumes "hi - lo < apiCallDebounceMs"
    and "is_read st \<longrightarrow> lo \<le> now env \<and> now env \<le> hi"
    and "fetch_count s \<le> c0 \<or> (fetch_count s \<le> Suc c0 \<and> lo \<le> lastApiCallTime s)"
  shows "fetch_count (perform_step env st s) \<le> c0 \<or>
         (fetch_count (perform_step env st s) \<le> Suc c0 \<and>
          lo \<le> lastApiCallTime (perform_step env st s))"
proof (cases "is_read st")
  case False
  then show ?thesis
    using assms(3) by (simp add: call_step_lastApiCallTime call_step_fetch_count)
next
  case True
  let ?s' = "snd (getNotifications env s)"
  have at: "lo \<le> now env" "now env \<le> hi"
    using assms(2) True by simp_all
  show ?thesis
  proof (cases "now env - lastApiCallTime s < apiCallDebounceMs")
    case debounced: True
    then have "lastApiCallTime ?s' = lastApiCallTime s" and "fetch_count ?s' \<le> fetch_count s"
      using getNotifications_lastApiCallTime [of env s] getNotifications_fetch_count [of env s]
      by simp_all
    then show ?thesis
      using assms(3) by (auto simp: read_step [OF True])
  next
    case attempt: False
    then have later: "\<not> lo \<le> lastApiCallTime s"
      using assms(1) at by linarith
    then have "fetch_count s \<le> c0"
      using assms(3) by blast
    moreover have "lastApiCallTime ?s' = now env" and "fetch_count ?s' \<le> Suc (fetch_count s)"
      using attempt getNotifications_lastApiCallTime [of env s]
        getNotifications_fetch_count [of env s] by simp_all
    ultimately show ?thesis
      using at by (simp add: read_step [OF True])
  qed
qed

lemma run_steps_in_window:
  assumes "hi - lo < apiCallDebounceMs"
    and "\<forall>p \<in> set sts. is_read (snd p) \<longrightarrow> lo \<le> now (fst p) \<and> now (fst p) \<le> hi"
    and "fetch_count s \<le> c0 \<or> (fetch_count s \<le> Suc c0 \<and> lo \<le> lastApiCallTime s)"
  shows "fetch_count (run_steps sts s) \<le> Suc c0"
  using assms(2,3)
proof (induction sts arbitrary: s)
  case Nil
  then show ?case by auto
next
  case (Cons a sts)
  obtain env st where a: "a = (env, st)" by (cases a)
  have "is_read st \<longrightarrow> lo \<le> now env \<and> now env \<le> hi"
    using Cons.prems(1) by (simp add: a)
  from step_in_window [OF assms(1) this Cons.prems(2)]
  have "fetch_count (run_steps sts (perform_step env st s)) \<le> Suc c0"
    using Cons.IH Cons.prems(1) by simp
  then show ?case
    by (simp add: a)
qed

lemma run_steps_append: "run_steps (xs @ ys) s = run_steps ys (run_steps xs s)"
  by (induction xs arbitrary: s) auto

subsection \<open>The debounce\<close>

text \<open>
  C5. Take two calls of \<open>getNotifications\<close> whose instants differ by less than 3000 ms
  and any steps between them except \<open>refreshNotifications\<close>: the other calls and further
  reads (\<open>getNotifications\<close>, \<open>getUnreadCount\<close>). When the reads between them happen at
  instants between those of the two calls (the clock does not go back), all the reads
  together send at most one fetch request. With any clock, the two calls themselves
  send at most one fetch request between them. The check compares the current instant
  with \<open>lastApiCallTime\<close>: inside the window the fetch returns the empty list and leaves
  the state as it is, so no request is sent.
\<close>

theorem debounce:
  "(\<bar>now env2 - now env1\<bar> < 3000 \<and>
    (\<forall>p \<in> set between. is_read (snd p) \<longrightarrow>
       min (now env1) (now env2) \<le> now (fst p) \<and> now (fst p) \<le> max (now env1) (now env2)) \<longrightarrow>
      fetch_count (snd (getNotifications env2
          (run_steps between (snd (getNotifications env1 s))))) \<le> Suc (fetch_count s)) \<and>
   (\<bar>now env2 - now env1\<bar> < 3000 \<longrightarrow>
      fetch_count s \<le> fetch_count (snd (getNotifications env1 s)) \<and>
      fetch_count (run_steps between (snd (getNotifications env1 s)))
        \<le> fetch_count (snd (getNotifications env2
              (run_steps between (snd (getNotifications env1 s))))) \<and>
      fetch_count (snd (getNotifications env2
          (run_steps between (snd (getNotifications env1 s))))) +
        fetch_count (snd (getNotifications env1 s))
        \<le> Suc (fetch_count (run_steps between (snd (getNotifications env1 s))) +
                fetch_count s)) \<and>
   (now env - lastApiCallTime s < 3000 \<longrightarrow>
      fetchNotificationsFromAPI env s = (Inr [], s))"
proof (intro conjI impI)
  define s1 where "s1 = snd (getNotifications env1 s)"
  define s2 where "s2 = run_steps between s1"
  define s3 where "s3 = snd (getNotifications env2 s2)"
  {
    assume hyp: "\<bar>now env2 - now env1\<bar> < 3000 \<and>
      (\<forall>p \<in> set between. is_read (snd p) \<longrightarrow>
         min (now env1) (now env2) \<le> now (fst p) \<and> now (fst p) \<le> max (now env1) (now env2))"
    let ?lo = "min (now env1) (now env2)" and ?hi = "max (now env1) (now env2)"
    let ?all = "(env1, List) # between @ [(env2, List)]"
    have "\<bar>now env2 - now env1\<bar> < 3000"
      using hyp by blast
    then have short: "?hi - ?lo < apiCallDebounceMs"
      unfolding apiCallDebounceMs_def by linarith
    have inside: "\<forall>p \<in> set ?all. is_read (snd p) \<longrightarrow> ?lo \<le> now (fst p) \<and> now (fst p) \<le> ?hi"
      using hyp by simp
    have "fetch_count (run_steps ?all s) \<le> Suc (fetch_count s)"
      by (rule run_steps_in_window [OF short inside]) simp
    then show "fetch_count (snd (getNotifications env2
        (run_steps between (snd (getNotifications env1 s))))) \<le> Suc (fetch_count s)"
      by (simp add: run_steps_append)
  }
  {
    assume near: "\<bar>now env2 - now env1\<bar> < 3000"
    show "fetch_count s \<le> fetch_count (snd (getNotifications env1 s))"
      by (rule getNotifications_fetch_count_mono)
    show "fetch_count (run_steps between (snd (getNotifications env1 s)))
        \<le> fetch_count (snd (getNotifications env2
              (run_steps between (snd (getNotifications env1 s)))))"
      by (rule getNotifications_fetch_count_mono)
    have "fetch_count s3 + fetch_count s1 \<le> Suc (fetch_count s2 + fetch_count s)"
    proof (cases "now env1 - lastApiCallTime s < apiCallDebounceMs")
      case True
      then have "fetch_count s1 \<le> fetch_count s"
        using getNotifications_fetch_count [of env1 s] by (simp add: s1_def)
      moreover have "fetch_count s3 \<le> Suc (fetch_count s2)"
        using getNotifications_fetch_count [of env2 s2] by (simp add: s3_def split: if_splits)
      ultimately show ?thesis
        by linarith
    next
      case False
      then have "lastApiCallTime s1 = now env1"
        by (simp add: s1_def getNotifications_lastApiCallTime)
      then have "now env1 \<le> lastApiCallTime s2"
        using run_steps_lastApiCallTime_mono [of s1 between] by (simp add: s2_def)
      with near have "now env2 - lastApiCallTime s2 < apiCallDebounceMs"
        by (simp add: apiCallDebounceMs_def)
      then have "fetch_count s3 \<le> fetch_count s2"
        using getNotifications_fetch_count [of env2 s2] by (simp add: s3_def)
      moreover have "fetch_count s1 \<le> Suc (fetch_count s)"
        using False getNotifications_fetch_count [of env1 s] by (simp add: s1_def)
      ultimately show ?thesis
        by linarith
    qed
    then show "fetch_count (snd (getNotifications env2
          (run_steps between (snd (getNotifications env1 s))))) +
        fetch_count (snd (getNotifications env1 s))
        \<le> Suc (fetch_count (run_steps between (snd (getNotifications env1 s))) +
                fetch_count s)"
      by (simp add: s1_def s2_def s3_def)
  }
  {
    assume "now env - lastApiCallTime s < 3000"
    then show "fetchNotificationsFromAPI env s = (Inr [], s)"
      by (simp add: fetch_debounced apiCallDebounceMs_def)
  }
qed

theorem debounce_witness:
  "fetch_count (snd (getNotifications ((signed_in owner7)\<lparr>now := 6000\<rparr>)
       (run_steps [(offline, Do MarkAllAsRead),
                   ((signed_in owner7)\<lparr>now := 5500\<rparr>, List),
                   ((signed_in owner7)\<lparr>now := 5800\<rparr>, UnreadCount)]
          (snd (getNotifications (signed_in owner7) fresh)))))
     \<le> Suc (fetch_count fresh) \<and>
   fetch_count (snd (getNotifications ((signed_in owner7)\<lparr>now := 6000\<rparr>)
       (run_steps [(offline, Do MarkAllAsRead),
                   ((signed_in owner7)\<lparr>now := 5500\<rparr>, List),
                   ((signed_in owner7)\<lparr>now := 5800\<rparr>, UnreadCount)]
          (snd (getNotifications (signed_in owner7) fresh))))) +
     fetch_count (snd (getNotifications (signed_in owner7) fresh))
     \<le> Suc (fetch_count (run_steps [(offline, Do MarkAllAsRead),
                   ((signed_in owner7)\<lparr>now := 5500\<rparr>, List),
                   ((signed_in owner7)\<lparr>now := 5800\<rparr>, UnreadCount)]
          (snd (getNotifications (signed_in owner7) fresh))) + fetch_count fresh) \<and>
   fetchNotificationsFromAPI (offline\<lparr>now := 2000\<rparr>) fresh = (Inr [], fresh)"
  using debounce [of "(signed_in owner7)\<lparr>now := 6000\<rparr>" "signed_in owner7"
      "[(offline, Do MarkAllAsRead),
        ((signed_in owner7)\<lparr>now := 5500\<rparr>, List),
        ((signed_in owner7)\<lparr>now := 5800\<rparr>, UnreadCount)]" fresh "offline\<lparr>now := 2000\<rparr>"]
  by (simp add: signed_in_def offline_def fresh_def)

lemma fetch_aborted:
  assumes "\<not> now env - lastApiCallTime s < apiCallDebounceMs"
    and "currentUser env (calls s) = Inr None \<or>
         (\<exists>u. currentUser env (calls s) = Inr (Some u) \<and> authToken u = None)"
  shows "fetchNotificationsFromAPI env s = (Inr [], tick (s\<lparr>lastApiCallTime := now env\<rparr>))"
  using assms
  by (auto simp: fetchNotificationsFromAPI_def try_catch_def io_bind_def Date_now_def
      io_return_def read_lastApiCallTime_def write_lastApiCallTime_def getCurrentUser_def
      tick_def)

lemma getNotifications_requests:
  "requests (snd (getNotifications env s)) = requests (snd (fetchNotificationsFromAPI env s))"
  by (rule getNotifications_frame) (simp_all add: tick_def)

lemma run_lists_debounced:
  assumes "\<forall>e \<in> set envs. now e - lastApiCallTime s < apiCallDebounceMs"
  shows "requests (run_lists envs s) = requests s \<and>
         lastApiCallTime (run_lists envs s) = lastApiCallTime s"
  using assms
proof (induction envs arbitrary: s)
  case Nil
  show ?case by simp
next
  case (Cons e envs)
  let ?s' = "snd (getNotifications e s)"
  have e: "now e - lastApiCallTime s < apiCallDebounceMs"
    using Cons.prems by simp
  have last: "lastApiCallTime ?s' = lastApiCallTime s"
    using e by (simp add: getNotifications_lastApiCallTime)
  have reqs: "requests ?s' = requests s"
    using e by (simp add: getNotifications_requests fetch_debounced)
  have "\<forall>e \<in> set envs. now e - lastApiCallTime ?s' < apiCallDebounceMs"
    using Cons.prems last by simp
  from Cons.IH [OF this] show ?case
    by (simp add: last reqs)
qed

text \<open>
  C10. The fetch writes \<open>lastApiCallTime\<close> before it asks for the user and the token.
  So a call of \<open>getNotifications\<close> outside the window whose fetch stops for a missing
  user or a missing token sends no request and still sets \<open>lastApiCallTime\<close> to its
  instant; every call of \<open>getNotifications\<close> less than 3000 ms after that instant sends
  no request either, whatever user and token its collaborators then give.
\<close>

theorem aborted_fetch_consumes_window:
  assumes "\<not> now env1 - lastApiCallTime s < 3000"
    and "currentUser env1 (calls s) = Inr None \<or>
         (\<exists>u. currentUser env1 (calls s) = Inr (Some u) \<and> authToken u = None)"
    and "\<forall>e \<in> set envs. now e - now env1 < 3000"
  shows "requests (snd (getNotifications env1 s)) = requests s \<and>
         lastApiCallTime (snd (getNotifications env1 s)) = now env1 \<and>
         requests (run_lists envs (snd (getNotifications env1 s))) = requests s"
proof -
  let ?s1 = "snd (getNotifications env1 s)"
  have out: "\<not> now env1 - lastApiCallTime s < apiCallDebounceMs"
    using assms(1) by (simp add: apiCallDebounceMs_def)
  have reqs: "requests ?s1 = requests s"
    by (simp add: getNotifications_requests fetch_aborted [OF out assms(2)] tick_def)
  have last: "lastApiCallTime ?s1 = now env1"
    using out by (simp add: getNotifications_lastApiCallTime)
  have "\<forall>e \<in> set envs. now e - lastApiCallTime ?s1 < apiCallDebounceMs"
    using assms(3) by (simp add: last apiCallDebounceMs_def)
  from run_lists_debounced [OF this] reqs last show ?thesis
    by simp
qed

theorem aborted_fetch_consumes_window_witness:
  "requests (snd (getNotifications offline fresh)) = requests fresh \<and>
   lastApiCallTime (snd (getNotifications offline fresh)) = 5000 \<and>
   requests (run_lists [(signed_in owner7)\<lparr>now := 6000\<rparr>, (signed_in sitter5)\<lparr>now := 7999\<rparr>]
      (snd (getNotifications offline fresh))) = requests fresh"
proof -
  have a: "\<not> now offline - lastApiCallTime fresh < 3000"
    by (simp add: offline_def fresh_def)
  have b: "currentUser offline (calls fresh) = Inr None \<or>
         (\<exists>u. currentUser offline (calls fresh) = Inr (Some u) \<and> authToken u = None)"
    by (simp add: offline_def)
  have c: "\<forall>e \<in> set [(signed_in owner7)\<lparr>now := 6000\<rparr>, (signed_in sitter5)\<lparr>now := 7999\<rparr>].
      now e - now offline < 3000"
    by (simp add: offline_def signed_in_def)
  show ?thesis
    using aborted_fetch_consumes_window [OF a b c] by (simp add: offline_def)
qed

subsection \<open>The mutating methods\<close>

lemma deleteNotification_rewrite:
  "deleteNotification env i = rewrite_stored env (filter (\<lambda>n. nid n \<noteq> i))"
  by (simp add: deleteNotification_def rewrite_stored_def Let_def)

lemma markAsRead_rewrite:
  "markAsRead env i =
     io_bind (try_catch (markAsReadOnAPI env i) (\<lambda>error. io_return ())) (\<lambda>_.
       rewrite_stored env (map (\<lambda>n. if nid n = i then n\<lparr>isRead := True\<rparr> else n)))"
  by (simp add: markAsRead_def rewrite_stored_def Let_def)

lemma markAllAsRead_rewrite:
  "markAllAsRead env =
     io_bind (try_catch (markAllAsReadOnAPI env) (\<lambda>error. io_return ())) (\<lambda>_.
       rewrite_stored env (map (\<lambda>n. n\<lparr>isRead := True\<rparr>)))"
  by (simp add: markAllAsRead_def rewrite_stored_def Let_def)

lemma append_rewrite:
  "append env c =
     io_bind (rewrite_stored env ((#) (created env c))) (\<lambda>_. io_return (created env c))"
  by (cases c)
    (simp_all add: addNotification_def addNotificationForUser_def rewrite_stored_def Let_def
      created_def io_bind_assoc)

lemma rewrite_stored_ok:
  assumes "\<not> getItem_throws env (calls s)" and "\<not> setItem_throws env (Suc (calls s))"
    and "\<forall>l k. \<not> listener_throws env l k"
  shows "rewrite_stored env f s =
     (Inr (), s\<lparr>storage := Some (f (canonical s)),
                calls := calls s + 3 + length (listeners s),
                delivered := delivered s @
                  map (\<lambda>l. (l, visible_to (currentUser env (Suc (Suc (calls s)))) (f (canonical s))))
                    (listeners s)\<rparr>)"
  using assms
  by (simp add: rewrite_stored_def io_bind_def AsyncStorage_getItem_def AsyncStorage_setItem_def
      filterNotificationsByUserType_eq notifyListeners_quiet tick_def canonical_def)

lemma rewrite_stored_cases:
  "rewrite_stored env f s =
     (if getItem_throws env (calls s) then (Inl StorageError, tick s)
      else if setItem_throws env (Suc (calls s)) then (Inl StorageError, tick (tick s))
      else notifyListeners env (visible_to (currentUser env (Suc (Suc (calls s)))) (f (canonical s)))
             (s\<lparr>storage := Some (f (canonical s)), calls := Suc (Suc (Suc (calls s)))\<rparr>))"
  by (simp add: rewrite_stored_def io_bind_def AsyncStorage_getItem_def AsyncStorage_setItem_def
      filterNotificationsByUserType_eq tick_def canonical_def)

lemma rewrite_stored_thrown:
  assumes "\<forall>l k. \<not> listener_throws env l k" and "fst (rewrite_stored env f s) = Inl e"
  shows "e = StorageError \<and> storage (snd (rewrite_stored env f s)) = storage s"
  using assms
  by (auto simp: rewrite_stored_cases notifyListeners_quiet tick_def split: if_splits)

lemma rewrite_stored_storage:
  "storage (snd (rewrite_stored env f s)) = storage s \<or>
   storage (snd (rewrite_stored env f s)) = Some (f (canonical s))"
proof -
  have "preserves storage (notifyListeners env ns)" for ns
    by (rule preserves_notifyListeners) (simp_all add: tick_def)
  then show ?thesis
    by (simp add: rewrite_stored_cases tick_def preserves_def)
qed

text \<open>
  C8. When the storage accepts the read and the write and the listeners return,
  \<open>deleteNotification\<close> returns; the canonical list afterwards is the list before without
  the entries whose id is the given one, the others unchanged and in their order; it is
  what the storage holds; every listener, in the order of registration, has been called
  with the filtered view of that list. When no entry has the id, the canonical list is
  unchanged, and the listeners are called all the same.
\<close>
theorem delete_removes_matching:
  assumes "\<not> getItem_throws env (calls s)" and "\<not> setItem_throws env (Suc (calls s))"
    and "\<forall>l k. \<not> listener_throws env l k"
  shows "\<exists>s'. deleteNotification env i s = (Inr (), s') \<and>
      canonical s' = filter (\<lambda>n. nid n \<noteq> i) (canonical s) \<and>
      storage s' = Some (canonical s') \<and>
      listeners s' = listeners s \<and>
      delivered s' = delivered s @
        map (\<lambda>l. (l, visible_to (currentUser env (Suc (Suc (calls s)))) (canonical s')))
          (listeners s) \<and>
      (i \<notin> nid ` set (canonical s) \<longrightarrow> canonical s' = canonical s)"
proof -
  let ?kept = "filter (\<lambda>n. nid n \<noteq> i) (canonical s)"
  define s' where "s' = s\<lparr>storage := Some ?kept,
      calls := calls s + 3 + length (listeners s),
      delivered := delivered s @
        map (\<lambda>l. (l, visible_to (currentUser env (Suc (Suc (calls s)))) ?kept)) (listeners s)\<rparr>"
  have run: "deleteNotification env i s = (Inr (), s')"
    by (simp add: deleteNotification_rewrite rewrite_stored_ok [OF assms] s'_def)
  have kept: "canonical s' = ?kept"
    by (simp add: s'_def canonical_def parse_stored_def)
  have same: "?kept = canonical s" if "i \<notin> nid ` set (canonical s)"
    using that by (induction "canonical s") (auto simp: filter_id_conv)
  show ?thesis
  proof (intro exI [of _ s'] conjI impI)
    show "deleteNotification env i s = (Inr (), s')" by (rule run)
    show "canonical s' = ?kept" by (rule kept)
    show "storage s' = Some (canonical s')" unfolding kept by (simp add: s'_def)
    show "listeners s' = listeners s" by (simp add: s'_def)
    show "delivered s' = delivered s @
        map (\<lambda>l. (l, visible_to (currentUser env (Suc (Suc (calls s)))) (canonical s')))
          (listeners s)"
      unfolding kept by (simp add: s'_def)
    show "canonical s' = canonical s" if "i \<notin> nid ` set (canonical s)"
      using that kept same by simp
  qed
qed

theorem delete_removes_matching_witness:
  "\<exists>s'. deleteNotification (signed_in owner7) ''1'' two_stored = (Inr (), s') \<and>
      canonical s' = [memo ''2'' System ''Welcome'' None] \<and>
      delivered s' = [(4, [memo ''2'' System ''Welcome'' None]),
                      (9, [memo ''2'' System ''Welcome'' None])]"
proof -
  have a: "\<not> getItem_throws (signed_in owner7) (calls two_stored)"
    and b: "\<not> setItem_throws (signed_in owner7) (Suc (calls two_stored))"
    and c: "\<forall>l k. \<not> listener_throws (signed_in owner7) l k"
    by (simp_all add: signed_in_def offline_def)
  show ?thesis
    using delete_removes_matching [OF a b c, of "''1''"]
    by (auto simp: two_stored_def fresh_def canonical_def parse_stored_def memo_def
        signed_in_def offline_def visible_to_def matches_def truthy_def owner7_def
        isPetSitter_def isMessageOrSystem_def)
qed

subsection \<open>Where a failure ends\<close>

lemma getNotifications_returns: "returns (getNotifications env)"
  unfolding getNotifications_def by (intro returns_try returns_return)

lemma getUnreadCount_returns: "returns (getUnreadCount env)"
  unfolding getUnreadCount_def
  by (intro returns_bind returns_return getNotifications_returns)

lemma getNotifications_store_down:
  assumes "\<forall>k. getItem_throws env k" and "fst (fetchNotificationsFromAPI env s) = Inr []"
  shows "fst (getNotifications env s) = Inr []"
proof -
  obtain s1 where "fetchNotificationsFromAPI env s = (Inr [], s1)"
    using assms(2) by (cases "fetchNotificationsFromAPI env s") simp
  then show ?thesis
    using assms(1)
    by (simp add: getNotifications_def try_catch_def io_bind_def AsyncStorage_getItem_def
        io_return_def)
qed

lemma io_bind_return: "io_bind (io_return x) f = f x"
  by (rule ext) (simp add: io_bind_def io_return_def)

lemma io_bind_return_right: "io_bind m io_return = m"
  by (rule ext) (simp add: io_bind_def io_return_def split: prod.splits sum.splits)

lemma then_return:
  "io_bind m (\<lambda>_. io_return x) s =
     (case m s of (Inl e, s') \<Rightarrow> (Inl e, s') | (Inr y, s') \<Rightarrow> (Inr x, s'))"
  by (simp add: io_bind_def io_return_def split: prod.splits sum.splits)

lemma remote_guarded:
  assumes "preserves storage m"
  shows "\<exists>s0. try_catch m (\<lambda>error. io_return ()) s = (Inr (), s0) \<and> storage s0 = storage s"
proof -
  have "preserves storage (try_catch m (\<lambda>error. io_return ()))"
    by (intro preserves_try preserves_return assms)
  moreover have "returns (try_catch m (\<lambda>error. io_return ()))"
    by (intro returns_try returns_return)
  ultimately show ?thesis
    unfolding preserves_def returns_def by (metis (full_types) snd_conv old.unit.exhaust)
qed

lemma markAsReadOnAPI_guarded:
  "\<exists>s0. try_catch (markAsReadOnAPI env i) (\<lambda>error. io_return ()) s = (Inr (), s0) \<and>
        storage s0 = storage s"
  by (rule remote_guarded, rule preserves_markAsReadOnAPI) (simp_all add: tick_def)

lemma markAllAsReadOnAPI_guarded:
  "\<exists>s0. try_catch (markAllAsReadOnAPI env) (\<lambda>error. io_return ()) s = (Inr (), s0) \<and>
        storage s0 = storage s"
  by (rule remote_guarded, rule preserves_markAllAsReadOnAPI) (simp_all add: tick_def)

text \<open>Every call that changes the stored list is the shared sequence, run from a state
  with the same storage.\<close>

lemma perform_shape:
  assumes "touches_storage c" and "c \<noteq> ClearAllNotifications"
  shows "\<exists>s0 f. storage s0 = storage s \<and>
           snd (perform env c s) = snd (rewrite_stored env f s0) \<and>
           fst (perform env c s) = fst (rewrite_stored env f s0)"
proof (cases c)
  case (AddNotification d)
  have "perform env c = rewrite_stored env ((#) (created env (Add d)))"
    using append_rewrite [of env "Add d"]
    by (simp add: AddNotification io_bind_assoc io_bind_return io_bind_return_right)
  then show ?thesis
    by (intro exI [of _ s] exI [of _ "(#) (created env (Add d))"]) simp
next
  case (AddNotificationForUser target d)
  have "perform env c = rewrite_stored env ((#) (created env (AddForUser target d)))"
    using append_rewrite [of env "AddForUser target d"]
    by (simp add: AddNotificationForUser io_bind_assoc io_bind_return io_bind_return_right)
  then show ?thesis
    by (intro exI [of _ s] exI [of _ "(#) (created env (AddForUser target d))"]) simp
next
  case (MarkAsRead i)
  obtain s0 where "try_catch (markAsReadOnAPI env i) (\<lambda>error. io_return ()) s = (Inr (), s0)"
    and "storage s0 = storage s"
    using markAsReadOnAPI_guarded by blast
  then show ?thesis
    by (intro exI [of _ s0] exI [of _ "map (\<lambda>n. if nid n = i then n\<lparr>isRead := True\<rparr> else n)"])
      (simp add: MarkAsRead markAsRead_rewrite io_bind_def)
next
  case MarkAllAsRead
  obtain s0 where "try_catch (markAllAsReadOnAPI env) (\<lambda>error. io_return ()) s = (Inr (), s0)"
    and "storage s0 = storage s"
    using markAllAsReadOnAPI_guarded by blast
  then show ?thesis
    by (intro exI [of _ s0] exI [of _ "map (\<lambda>n. n\<lparr>isRead := True\<rparr>)"])
      (simp add: MarkAllAsRead markAllAsRead_rewrite io_bind_def)
next
  case (DeleteNotification i)
  then show ?thesis
    by (intro exI [of _ s] exI [of _ "filter (\<lambda>n. nid n \<noteq> i)"])
      (simp add: deleteNotification_rewrite)
qed (use assms in simp_all)


lemma clearAllNotifications_cases:
  "clearAllNotifications env s =
     (if removeItem_throws env (calls s) then (Inl StorageError, tick s)
      else notifyListeners env [] (tick (s\<lparr>storage := None\<rparr>)))"
  by (simp add: clearAllNotifications_def io_bind_def AsyncStorage_removeItem_def)

lemma perform_healthy:
  assumes "\<forall>k. \<not> getItem_throws env k" and "\<forall>k. \<not> setItem_throws env k"
    and "\<forall>k. \<not> removeItem_throws env k" and "\<forall>l k. \<not> listener_throws env l k"
  shows "\<exists>s'. perform env c s = (Inr (), s')"
proof (cases "touches_storage c \<and> c \<noteq> ClearAllNotifications")
  case True
  then obtain s0 f where "fst (perform env c s) = fst (rewrite_stored env f s0)"
    using perform_shape [of c s env] by blast
  moreover have "fst (rewrite_stored env f s0) = Inr ()"
    using assms by (simp add: rewrite_stored_ok)
  ultimately show ?thesis
    by (cases "perform env c s") simp
next
  case False
  then show ?thesis
    using assms
    by (cases c) (simp_all add: clearAllNotifications_cases notifyListeners_quiet)
qed

lemma perform_thrown:
  assumes "\<forall>l k. \<not> listener_throws env l k" and "fst (perform env c s) = Inl e"
  shows "e = StorageError \<and> storage (snd (perform env c s)) = storage s"
proof (cases "touches_storage c \<and> c \<noteq> ClearAllNotifications")
  case True
  then obtain s0 f where s0: "storage s0 = storage s"
    and "snd (perform env c s) = snd (rewrite_stored env f s0)"
    and "fst (perform env c s) = fst (rewrite_stored env f s0)"
    using perform_shape [of c s env] by blast
  then show ?thesis
    using rewrite_stored_thrown [OF assms(1), of f s0 e] assms(2) by simp
next
  case False
  then show ?thesis
    using assms
    by (cases c)
      (auto simp: clearAllNotifications_cases notifyListeners_quiet tick_def split: if_splits)
qed

lemma perform_store_down:
  assumes "\<forall>k. getItem_throws env k \<and> removeItem_throws env k" and "touches_storage c"
  shows "fst (perform env c s) = Inl StorageError"
proof (cases "c = ClearAllNotifications")
  case True
  then show ?thesis
    using assms by (simp add: clearAllNotifications_cases)
next
  case False
  then obtain s0 f where "fst (perform env c s) = fst (rewrite_stored env f s0)"
    using perform_shape [of c s env] assms(2) by blast
  then show ?thesis
    using assms(1) by (simp add: rewrite_stored_cases)
qed

lemma perform_read_or_write_fails:
  assumes "(\<forall>k. getItem_throws env k) \<or> (\<forall>k. setItem_throws env k)"
    and "touches_storage c" and "c \<noteq> ClearAllNotifications"
  shows "fst (perform env c s) = Inl StorageError \<and>
         storage (snd (perform env c s)) = storage s"
proof -
  obtain s0 f where "storage s0 = storage s"
    and "snd (perform env c s) = snd (rewrite_stored env f s0)"
    and "fst (perform env c s) = fst (rewrite_stored env f s0)"
    using perform_shape [of c s env] assms(2,3) by blast
  then show ?thesis
    using assms(1) by (auto simp: rewrite_stored_cases tick_def)
qed

lemma clear_remove_fails:
  assumes "removeItem_throws env (calls s)"
  shows "fst (perform env ClearAllNotifications s) = Inl StorageError \<and>
         storage (snd (perform env ClearAllNotifications s)) = storage s"
  using assms by (simp add: clearAllNotifications_cases tick_def)

text \<open>
  C1, amended. \<open>getNotifications\<close> and \<open>getUnreadCount\<close> never throw, whatever the
  collaborators do, and when every storage read fails and the fetch gave nothing they
  return the empty list and 0. The mutating methods (both appends, \<open>markAsRead\<close>,
  \<open>markAllAsRead\<close>, \<open>deleteNotification\<close>, \<open>clearAllNotifications\<close>) never pass on a
  failure of the remote endpoint or of the identity collaborator: they return whenever
  the storage and the listeners do not fail. A failure of the storage in a mutating
  method is thrown to the caller and leaves the stored list unchanged: a failing
  \<open>getItem\<close> or a failing \<open>setItem\<close> in the appends, the marks and the delete, a failing
  \<open>removeItem\<close> in the clear. When a mutating method throws and the listeners did not,
  the exception is the storage's and the stored list is unchanged.
\<close>

theorem failure_containment:
  "(\<exists>ns s'. getNotifications env s = (Inr ns, s')) \<and>
   (\<exists>k s'. getUnreadCount env s = (Inr k, s')) \<and>
   ((\<forall>k. getItem_throws env k) \<and> fst (fetchNotificationsFromAPI env s) = Inr [] \<longrightarrow>
      fst (getNotifications env s) = Inr [] \<and> fst (getUnreadCount env s) = Inr 0) \<and>
   ((\<forall>k. \<not> getItem_throws env k) \<and> (\<forall>k. \<not> setItem_throws env k) \<and>
    (\<forall>k. \<not> removeItem_throws env k) \<and> (\<forall>l k. \<not> listener_throws env l k) \<longrightarrow>
      (\<exists>s'. perform env c s = (Inr (), s'))) \<and>
   ((\<forall>l k. \<not> listener_throws env l k) \<and> fst (perform env c s) = Inl e \<longrightarrow>
      e = StorageError \<and> storage (snd (perform env c s)) = storage s) \<and>
   ((\<forall>k. getItem_throws env k \<and> removeItem_throws env k) \<and> touches_storage c \<longrightarrow>
      fst (perform env c s) = Inl StorageError) \<and>
   ((\<forall>k. getItem_throws env k) \<and> touches_storage c \<and> c \<noteq> ClearAllNotifications \<longrightarrow>
      fst (perform env c s) = Inl StorageError \<and>
      storage (snd (perform env c s)) = storage s) \<and>
   ((\<forall>k. setItem_throws env k) \<and> touches_storage c \<and> c \<noteq> ClearAllNotifications \<longrightarrow>
      fst (perform env c s) = Inl StorageError \<and>
      storage (snd (perform env c s)) = storage s) \<and>
   (removeItem_throws env (calls s) \<longrightarrow>
      fst (perform env ClearAllNotifications s) = Inl StorageError \<and>
      storage (snd (perform env ClearAllNotifications s)) = storage s)"
proof (intro conjI impI)
  show "\<exists>ns s'. getNotifications env s = (Inr ns, s')"
    using getNotifications_returns by (simp add: returns_def)
  show "\<exists>k s'. getUnreadCount env s = (Inr k, s')"
    using getUnreadCount_returns by (simp add: returns_def)
next
  assume down: "(\<forall>k. getItem_throws env k) \<and> fst (fetchNotificationsFromAPI env s) = Inr []"
  then show empty: "fst (getNotifications env s) = Inr []"
    by (simp add: getNotifications_store_down)
  then show "fst (getUnreadCount env s) = Inr 0"
    by (cases "getNotifications env s") (simp add: getUnreadCount_def io_bind_def io_return_def)
next
  assume "(\<forall>k. \<not> getItem_throws env k) \<and> (\<forall>k. \<not> setItem_throws env k) \<and>
    (\<forall>k. \<not> removeItem_throws env k) \<and> (\<forall>l k. \<not> listener_throws env l k)"
  then show "\<exists>s'. perform env c s = (Inr (), s')"
    by (simp add: perform_healthy)
next
  assume thrown: "(\<forall>l k. \<not> listener_throws env l k) \<and> fst (perform env c s) = Inl e"
  then show "e = StorageError" and "storage (snd (perform env c s)) = storage s"
    using perform_thrown [of env c s e] by simp_all
next
  assume "(\<forall>k. getItem_throws env k \<and> removeItem_throws env k) \<and> touches_storage c"
  then show "fst (perform env c s) = Inl StorageError"
    by (simp add: perform_store_down)
next
  assume "(\<forall>k. getItem_throws env k) \<and> touches_storage c \<and> c \<noteq> ClearAllNotifications"
  then show "fst (perform env c s) = Inl StorageError"
    and "storage (snd (perform env c s)) = storage s"
    using perform_read_or_write_fails [of env c s] by simp_all
next
  assume "(\<forall>k. setItem_throws env k) \<and> touches_storage c \<and> c \<noteq> ClearAllNotifications"
  then show "fst (perform env c s) = Inl StorageError"
    and "storage (snd (perform env c s)) = storage s"
    using perform_read_or_write_fails [of env c s] by simp_all
next
  assume "removeItem_throws env (calls s)"
  then show "fst (perform env ClearAllNotifications s) = Inl StorageError"
    and "storage (snd (perform env ClearAllNotifications s)) = storage s"
    using clear_remove_fails [of env s] by simp_all
qed

theorem failure_containment_witness:
  "(\<exists>ns s'. getNotifications storage_down two_stored = (Inr ns, s')) \<and>
   fst (getNotifications storage_down two_stored) = Inr [] \<and>
   fst (getUnreadCount storage_down two_stored) = Inr 0 \<and>
   (\<exists>s'. perform (signed_in owner7) (MarkAsRead ''1'') two_stored = (Inr (), s')) \<and>
   fst (perform storage_down (DeleteNotification ''1'') two_stored) = Inl StorageError \<and>
   storage (snd (perform storage_down (DeleteNotification ''1'') two_stored)) = storage two_stored \<and>
   fst (perform write_fails (DeleteNotification ''1'') two_stored) = Inl StorageError \<and>
   storage (snd (perform write_fails (DeleteNotification ''1'') two_stored)) = storage two_stored \<and>
   fst (perform write_fails (MarkAsRead ''1'') two_stored) = Inl StorageError \<and>
   fst (perform remove_fails ClearAllNotifications two_stored) = Inl StorageError \<and>
   storage (snd (perform remove_fails ClearAllNotifications two_stored)) = storage two_stored"
proof -
  have fetched: "fst (fetchNotificationsFromAPI storage_down two_stored) = Inr []"
    by (simp add: fetch_aborted storage_down_def offline_def two_stored_def fresh_def
        apiCallDebounceMs_def)
  show ?thesis
    using failure_containment [of storage_down two_stored "DeleteNotification ''1''" StorageError]
      failure_containment [of "signed_in owner7" two_stored "MarkAsRead ''1''" StorageError]
      failure_containment [of write_fails two_stored "DeleteNotification ''1''" StorageError]
      failure_containment [of write_fails two_stored "MarkAsRead ''1''" StorageError]
      failure_containment [of remove_fails two_stored "DeleteNotification ''1''" StorageError]
      fetched
    by (simp add: storage_down_def offline_def signed_in_def write_fails_def remove_fails_def)
qed

text \<open>The claim as written fails for \<open>markAsRead\<close>: its \<open>try\<close> block covers the remote
  update only, and the exception of \<open>AsyncStorage.getItem\<close> reaches the caller.\<close>

theorem failure_containment_counterexample:
  "fst (markAsRead storage_down ''1'' two_stored) = Inl StorageError"
  by (simp add: markAsRead_def try_catch_def markAsReadOnAPI_def io_bind_def getCurrentUser_def
      storage_down_def offline_def io_return_def AsyncStorage_getItem_def two_stored_def
      fresh_def tick_def)

subsection \<open>What the listeners receive from a read\<close>

lemma toString_7: "toString 7 = ''7''"
  by code_simp

lemma toString_5000: "toString 5000 = ''5000''"
  by code_simp

text \<open>
  C2. The claim holds on the mutating methods, which call the listeners with the
  filtered view, and fails on the path of \<open>getNotifications\<close> and
  \<open>refreshNotifications\<close> where the remote list is not empty: \<open>saveNotifications\<close> calls
  the listeners with the list it stores, unfiltered. Here the remote list is one review
  and a pet owner is signed in: the call returns the empty view, and the listener is
  called with the review.
\<close>

theorem remote_list_broadcast_unfiltered:
  "fst (getNotifications remote_review (fresh\<lparr>listeners := [4]\<rparr>)) = Inr [] \<and>
   delivered (snd (getNotifications remote_review (fresh\<lparr>listeners := [4]\<rparr>))) =
     [(4, [\<lparr> nid = ''7'', ntype = Review, title = ''How was your stay?'',
             message = ''Rate your sitter'', time = ''2026-11-02T10:00:00Z'', isRead = False,
             action = None, data = None, userId = None \<rparr>])]"
  by (simp add: getNotifications_def try_catch_def io_bind_def fetchNotificationsFromAPI_def
      Date_now_def io_return_def read_lastApiCallTime_def write_lastApiCallTime_def
      getCurrentUser_def makeApiCall_def response_json_def authToken_def truthy_def
      fromApi_def or_default_def saveNotifications_def AsyncStorage_setItem_def
      notifyListeners_def call_listener_def filterNotificationsByUserType_eq visible_to_def
      matches_def isPetSitter_def isBookingWithStatus_def isMessageOrSystem_def
      remote_review_def signed_in_def offline_def owner7_def fresh_def tick_def
      apiCallDebounceMs_def toString_7)

subsection \<open>refreshNotifications against getNotifications\<close>

text \<open>
  C3. \<open>refreshNotifications\<close> is \<open>getNotifications\<close> after the reset of
  \<open>lastApiCallTime\<close> except in its \<open>catch\<close> block, which reads the storage without a
  \<open>try\<close> of its own: with the storage failing it throws where \<open>getNotifications\<close>
  returns the empty list.
\<close>

theorem refresh_throws_where_list_returns:
  "fst (refreshNotifications storage_down two_stored) = Inl StorageError \<and>
   fst (getNotifications storage_down (two_stored\<lparr>lastApiCallTime := 0\<rparr>)) = Inr []"
  by (simp add: refreshNotifications_def getNotifications_def try_catch_def io_bind_def
      fetchNotificationsFromAPI_def Date_now_def io_return_def read_lastApiCallTime_def
      write_lastApiCallTime_def getCurrentUser_def AsyncStorage_getItem_def
      storage_down_def offline_def two_stored_def fresh_def tick_def apiCallDebounceMs_def)

text \<open>Whenever \<open>refreshNotifications\<close> does not throw, it is \<open>getNotifications\<close> after
  the reset: same result, same state.\<close>

lemma try_catch_write:
  "try_catch (io_bind (write_lastApiCallTime v) (\<lambda>_. m)) h s =
     try_catch m h (s\<lparr>lastApiCallTime := v\<rparr>)"
  by (simp add: try_catch_def io_bind_def write_lastApiCallTime_def)

lemma try_catch_guarded:
  "fst (try_catch m h s) = Inr x \<Longrightarrow>
   try_catch m (\<lambda>e. try_catch (h e) h') s = try_catch m h s"
  by (auto simp: try_catch_def split: prod.splits sum.splits)

lemma refresh_agrees_unless_thrown:
  assumes "fst (refreshNotifications env s) = Inr ns"
  shows "refreshNotifications env s = getNotifications env (s\<lparr>lastApiCallTime := 0\<rparr>)"
  using assms unfolding refreshNotifications_def getNotifications_def try_catch_write
  by (simp add: try_catch_guarded)

subsection \<open>The ids of the appended notifications\<close>

text \<open>The decimal rendering of an integer determines the integer.\<close>

lemma digits_nonempty: "digits n \<noteq> []"
  by (subst digits.simps) simp

lemma digit_char_inj: "a < 10 \<Longrightarrow> b < 10 \<Longrightarrow> digit_char a = digit_char b \<Longrightarrow> a = b"
  unfolding digit_char_def by (simp add: char_of_eq_iff take_bit_eq_mod)

lemma digit_char_not_minus: "d < 10 \<Longrightarrow> digit_char d \<noteq> CHR ''-''"
  unfolding digit_char_def by (simp add: char_of_eq_iff take_bit_eq_mod)

lemma digits_small: "n < 10 \<Longrightarrow> digits n = [digit_char n]"
  by (subst digits.simps) simp

lemma digits_large: "\<not> n < 10 \<Longrightarrow> digits n = digits (n div 10) @ [digit_char (n mod 10)]"
  by (subst digits.simps) simp

lemma digits_inj: "digits m = digits n \<Longrightarrow> m = n"
proof (induction m arbitrary: n rule: digits.induct)
  case (1 m)
  show ?case
  proof (cases "m < 10")
    case True
    then have one: "digits n = [digit_char m]"
      using "1.prems" by (simp add: digits_small)
    have "n < 10"
    proof (rule ccontr)
      assume "\<not> n < 10"
      then have "digits (n div 10) @ [digit_char (n mod 10)] = [digit_char m]"
        using one by (simp add: digits_large)
      then show False
        by (simp add: digits_nonempty)
    qed
    with one True show ?thesis
      by (simp add: digits_small digit_char_inj)
  next
    case False
    then have long: "digits n = digits (m div 10) @ [digit_char (m mod 10)]"
      using "1.prems" by (simp add: digits_large)
    have big: "\<not> n < 10"
    proof
      assume "n < 10"
      then have "[digit_char n] = digits (m div 10) @ [digit_char (m mod 10)]"
        using long by (simp add: digits_small)
      then show False
        using digits_nonempty [of "m div 10"] by simp
    qed
    with long have "digits (m div 10) = digits (n div 10)"
      and "digit_char (m mod 10) = digit_char (n mod 10)"
      by (simp_all add: digits_large)
    then have "m div 10 = n div 10" and "m mod 10 = n mod 10"
      using "1.IH" [OF False] by (simp_all add: digit_char_inj)
    then show ?thesis
      by (metis div_mult_mod_eq)
  qed
qed

lemma hd_digits: "hd (digits n) \<noteq> CHR ''-''"
proof (induction n rule: digits.induct)
  case (1 n)
  show ?case
  proof (cases "n < 10")
    case True
    then show ?thesis by (simp add: digits_small digit_char_not_minus)
  next
    case False
    then show ?thesis
      using "1.IH" by (simp add: digits_large digits_nonempty)
  qed
qed

lemma toString_inj: "toString a = toString b \<Longrightarrow> a = b"
proof -
  have neg: "CHR ''-'' # digits k \<noteq> digits l" for k l
    using hd_digits [of l] by (metis list.sel(1))
  assume "toString a = toString b"
  then show ?thesis
    using neg digits_inj
    by (auto simp: toString_def split: if_splits dest!: digits_inj) (metis neg)+
qed

lemma nid_created: "nid (created env c) = toString (now env)"
  by (cases c) (simp_all add: created_def)

lemma append_result:
  "fst (append env c s) = Inr n \<Longrightarrow> n = created env c"
  by (simp add: append_rewrite then_return split: prod.splits sum.splits)

lemma append_canonical:
  "canonical (snd (append env c s)) = canonical s \<or>
   canonical (snd (append env c s)) = created env c # canonical s"
proof -
  have "snd (append env c s) = snd (rewrite_stored env ((#) (created env c)) s)"
    by (simp add: append_rewrite then_return split: prod.splits sum.splits)
  then show ?thesis
    using rewrite_stored_storage [of env "(#) (created env c)" s]
    by (auto simp: canonical_def parse_stored_def)
qed

lemma append_ok:
  assumes "\<not> getItem_throws env (calls s)" and "\<not> setItem_throws env (Suc (calls s))"
    and "\<forall>l k. \<not> listener_throws env l k"
  shows "append env c s =
     (Inr (created env c),
      s\<lparr>storage := Some (created env c # canonical s),
        calls := calls s + 3 + length (listeners s),
        delivered := delivered s @
          map (\<lambda>l. (l, visible_to (currentUser env (Suc (Suc (calls s))))
                 (created env c # canonical s))) (listeners s)\<rparr>)"
  by (simp add: append_rewrite then_return rewrite_stored_ok [OF assms])

lemma run_appends_ids:
  assumes "distinct (map (\<lambda>p. now (fst p)) cs)"
    and "distinct (map nid (canonical s))"
    and "\<forall>p \<in> set cs. toString (now (fst p)) \<notin> nid ` set (canonical s)"
  shows "distinct (map nid (fst (run_appends cs s))) \<and>
         nid ` set (fst (run_appends cs s)) \<subseteq> (\<lambda>p. toString (now (fst p))) ` set cs \<and>
         distinct (map nid (canonical (snd (run_appends cs s))))"
  using assms
proof (induction cs arbitrary: s)
  case Nil
  then show ?case by simp
next
  case (Cons a cs)
  obtain env c where a: "a = (env, c)" by (cases a)
  obtain r s' where step: "append env c s = (r, s')" by (cases "append env c s")
  have fresh_id: "toString (now env) \<notin> nid ` set (canonical s)"
    using Cons.prems(3) by (simp add: a)
  have later: "toString (now (fst p)) \<noteq> toString (now env)" if "p \<in> set cs" for p
  proof
    assume "toString (now (fst p)) = toString (now env)"
    then have "now (fst p) = now env"
      by (rule toString_inj)
    moreover have "now (fst p) \<in> (\<lambda>p. now (fst p)) ` set cs"
      using that by (rule imageI)
    ultimately show False
      using Cons.prems(1) by (simp add: a)
  qed
  have canon: "canonical s' = canonical s \<or> canonical s' = created env c # canonical s"
    using append_canonical [of env c s] by (simp add: step)
  have d': "distinct (map nid (canonical s'))"
    using canon Cons.prems(2) fresh_id by (auto simp: nid_created)
  have f': "\<forall>p \<in> set cs. toString (now (fst p)) \<notin> nid ` set (canonical s')"
  proof
    fix p
    assume p: "p \<in> set cs"
    have "toString (now (fst p)) \<notin> nid ` set (canonical s)"
      using Cons.prems(3) p by simp
    moreover have "toString (now (fst p)) \<noteq> nid (created env c)"
      using later [OF p] by (simp add: nid_created)
    ultimately show "toString (now (fst p)) \<notin> nid ` set (canonical s')"
      using canon by auto
  qed
  obtain ns s'' where rest: "run_appends cs s' = (ns, s'')"
    by (cases "run_appends cs s'")
  have IH: "distinct (map nid ns)"
    "nid ` set ns \<subseteq> (\<lambda>p. toString (now (fst p))) ` set cs"
    "distinct (map nid (canonical s''))"
    using Cons.IH [OF _ d' f'] Cons.prems(1) by (simp_all add: rest)
  show ?case
  proof (cases r)
    case (Inl e)
    then have "run_appends (a # cs) s = (ns, s'')"
      by (simp add: a step rest)
    then show ?thesis
      using IH by auto
  next
    case (Inr n)
    then have n: "nid n = toString (now env)"
      using append_result [of env c s n] by (simp add: step nid_created)
    have new: "nid n \<notin> nid ` set ns"
    proof
      assume "nid n \<in> nid ` set ns"
      then obtain p where "p \<in> set cs" and "toString (now (fst p)) = nid n"
        using IH(2) by auto
      then show False
        using later n by simp
    qed
    have "run_appends (a # cs) s = (n # ns, s'')"
      by (simp add: a step rest Inr)
    moreover have "nid n \<in> (\<lambda>p. toString (now (fst p))) ` set (a # cs)"
      by (simp add: n a)
    ultimately show ?thesis
      using IH new by auto
  qed
qed

text \<open>
  C4, amended. For every sequence of appends (\<open>addNotification\<close> and
  \<open>addNotificationForUser\<close>) whose clock readings are pairwise distinct, on a stored list
  whose ids are unique and are none of the renderings of those readings, the ids of the
  created notifications are pairwise distinct and the ids of the stored list are unique
  afterwards. A prefix of such a sequence is such a sequence, so this holds after every
  append.
\<close>

theorem append_ids_distinct:
  assumes "distinct (map (\<lambda>p. now (fst p)) cs)"
    and "distinct (map nid (canonical s))"
    and "\<forall>p \<in> set cs. toString (now (fst p)) \<notin> nid ` set (canonical s)"
  shows "distinct (map nid (fst (run_appends cs s))) \<and>
         distinct (map nid (canonical (snd (run_appends cs s))))"
  using run_appends_ids [OF assms] by simp

theorem append_ids_distinct_witness:
  "distinct (map nid (fst (run_appends
       [(offline, Add greeting), (offline\<lparr>now := 5001\<rparr>, AddForUser ''5'' booking_request)]
       fresh))) \<and>
   distinct (map nid (canonical (snd (run_appends
       [(offline, Add greeting), (offline\<lparr>now := 5001\<rparr>, AddForUser ''5'' booking_request)]
       fresh))))"
proof -
  have a: "distinct (map (\<lambda>p. now (fst p))
      [(offline, Add greeting), (offline\<lparr>now := 5001\<rparr>, AddForUser ''5'' booking_request)])"
    by (simp add: offline_def)
  have b: "distinct (map nid (canonical fresh))"
    by (simp add: canonical_def fresh_def parse_stored_def)
  have c: "\<forall>p \<in> set [(offline, Add greeting),
        (offline\<lparr>now := 5001\<rparr>, AddForUser ''5'' booking_request)].
      toString (now (fst p)) \<notin> nid ` set (canonical fresh)"
    by (simp add: canonical_def fresh_def parse_stored_def)
  show ?thesis
    using append_ids_distinct [OF a b c] .
qed

text \<open>The claim as written fails for two appends at one reading of the clock: the id
  is \<open>Date.now().toString()\<close>, so both notifications get the id 5000 and the stored
  list holds it twice.\<close>

theorem append_ids_counterexample:
  "map nid (fst (run_appends
       [(offline, Add greeting), (offline, AddForUser ''5'' booking_request)] fresh))
     = [''5000'', ''5000''] \<and>
   map nid (canonical (snd (run_appends
       [(offline, Add greeting), (offline, AddForUser ''5'' booking_request)] fresh)))
     = [''5000'', ''5000'']"
proof -
  have quiet: "\<forall>l k. \<not> listener_throws offline l k"
    by (simp add: offline_def)
  have get: "\<not> getItem_throws offline k" and set: "\<not> setItem_throws offline k" for k
    by (simp_all add: offline_def)
  have now: "now offline = 5000"
    by (simp add: offline_def)
  show ?thesis
    by (simp add: append_ok [OF get set quiet] nid_created now toString_5000 canonical_def
        parse_stored_def fresh_def del: append.simps)
qed

end
